theory Spec2Isabelle
  imports Main
begin

section \<open>PR Pulse: the GitHub provider, the status dot and the service worker\<close>

text \<open>
  The JavaScript sources are embedded as HOL functions. A JavaScript string is a
  \<^typ>\<open>string\<close>; a property the code guards with \<open>?.\<close> or \<open>||\<close> is an
  \<^typ>\<open>'a option\<close> (\<open>None\<close> for \<open>undefined\<close> and \<open>null\<close>), a property the code
  dereferences unguarded is taken as present. A rejected promise or a thrown exception is
  \<open>Inl\<close> of an \<open>error\<close>, a fulfilled one \<open>Inr\<close> of its value.

  Several objects of the sources share property names (\<open>status\<close>, \<open>login\<close>, \<open>state\<close>,
  ...). Record fields live in one name space, so a field carries the name of its object as
  a prefix wherever the bare name is already taken.
\<close>

datatype error = Error string

text \<open>\<open>x || ''\<close> and \<open>x || 0\<close> on a property that may be missing.\<close>

definition orEmpty :: "string option \<Rightarrow> string" where
  "orEmpty x = (case x of None \<Rightarrow> [] | Some s \<Rightarrow> s)"

definition orZero :: "int option \<Rightarrow> int" where
  "orZero x = (case x of None \<Rightarrow> 0 | Some n \<Rightarrow> n)"

subsection \<open>GitHub payloads, as far as the provider reads them\<close>

record api_user =
  user_login :: string
  user_avatar_url :: string

record api_head =
  ref :: "string option"
  sha :: "string option"

record api_pull =
  head :: "api_head option"
  additions :: "int option"
  deletions :: "int option"
  changed_files :: "int option"
  requested_reviewers :: "api_user list option"

record api_check_run =
  run_name :: string
  run_status :: string
  run_conclusion :: "string option"

record api_check_runs =
  check_runs :: "api_check_run list option"

record api_review =
  review_user :: api_user
  review_state :: string

record api_issue =
  issue_id :: int
  issue_title :: string
  html_url :: string
  repository_url :: "string option"
  issue_user :: "api_user option"
  issue_state :: string
  created_at :: string
  updated_at :: string
  number :: int

record api_search =
  items :: "api_issue list"

text \<open>
  The private method \<open>#request\<close> is one network round trip: it throws on a failed fetch
  or a non-2xx answer and returns the parsed body otherwise. The model takes the answer
  of every round trip from a record of answers, one function per call site.
  \<open>getPullRequestDetails\<close> and \<open>getCheckStatus\<close> both ask for
  \<open>/repos/<repo>/pulls/<n>\<close>; these are two round trips, and nothing makes them agree,
  so they have an answer each (\<open>pull_answer\<close>, \<open>head_answer\<close>).
\<close>

record github =
  search_answer :: "string \<Rightarrow> error + api_search"
  pull_answer :: "string \<Rightarrow> int \<Rightarrow> error + api_pull"
  head_answer :: "string \<Rightarrow> int \<Rightarrow> error + api_pull"
  check_runs_answer :: "string \<Rightarrow> string \<Rightarrow> error + api_check_runs"
  reviews_answer :: "string \<Rightarrow> int \<Rightarrow> error + api_review list"

subsection \<open>The provider's results\<close>

record check_detail =
  name :: string
  status :: string
  conclusion :: "string option"

text \<open>The object \<open>{ status, details }\<close> that \<open>getCheckStatus\<close> returns.\<close>

record checks =
  checks_status :: string
  details :: "check_detail list"

record reviewer =
  login :: string
  avatarUrl :: string
  state :: string

text \<open>
  The object \<open>{ status, reviewers, pendingReviewers }\<close> that \<open>getReviewStatus\<close>
  returns. The fallback objects of the list fetches have no \<open>pendingReviewers\<close>
  property: the field is \<open>None\<close> there.
\<close>

record reviews =
  reviews_status :: string
  reviewers :: "reviewer list"
  pendingReviewers :: "string list option"

record changes =
  changes_additions :: int
  changes_deletions :: int
  filesChanged :: int

text \<open>The object that \<open>getPullRequestDetails\<close> returns (\<open>_raw\<close> is \<open>raw\<close>).\<close>

record pr_details =
  details_branchName :: string
  details_changes :: changes
  requestedReviewers :: "string list"
  raw :: api_pull

subsection \<open>getPullRequestDetails\<close>

definition getPullRequestDetails :: "github \<Rightarrow> string \<Rightarrow> int \<Rightarrow> error + pr_details" where
  "getPullRequestDetails g repoFullName prNumber =
     (case pull_answer g repoFullName prNumber of
        Inl e \<Rightarrow> Inl e
      | Inr data \<Rightarrow>
          Inr \<lparr> details_branchName =
                  orEmpty (case head data of None \<Rightarrow> None | Some h \<Rightarrow> ref h),
                details_changes =
                  \<lparr> changes_additions = orZero (additions data),
                    changes_deletions = orZero (deletions data),
                    filesChanged = orZero (changed_files data) \<rparr>,
                requestedReviewers =
                  map user_login
                    (case requested_reviewers data of None \<Rightarrow> [] | Some rs \<Rightarrow> rs),
                raw = data \<rparr>)"

subsection \<open>getCheckStatus\<close>

definition failureConclusions :: "string list" where
  "failureConclusions =
     [''failure'', ''timed_out'', ''cancelled'', ''startup_failure'', ''action_required'']"

definition successConclusions :: "string list" where
  "successConclusions = [''success'', ''skipped'', ''neutral'']"

text \<open>\<open>list.includes(c)\<close> for a conclusion \<open>c\<close> that is a string or \<open>null\<close>.\<close>

definition arrayIncludes :: "string list \<Rightarrow> string option \<Rightarrow> bool" where
  "arrayIncludes xs c = (case c of None \<Rightarrow> False | Some s \<Rightarrow> s \<in> set xs)"

text \<open>
  The second half of \<open>getCheckStatus\<close>, from \<open>if (details.length === 0)\<close> to the
  final \<open>return\<close>: the reduction of the check runs to one status.
\<close>

definition reduceChecks :: "check_detail list \<Rightarrow> checks" where
  "reduceChecks ds =
     (if length ds = 0 then \<lparr> checks_status = ''unknown'', details = [] \<rparr>
      else if list_ex (\<lambda>d. arrayIncludes failureConclusions (conclusion d)) ds
      then \<lparr> checks_status = ''failure'', details = ds \<rparr>
      else if list_all (\<lambda>d. status d = ''completed'') ds
      then \<lparr> checks_status =
               (if list_all (\<lambda>d. arrayIncludes successConclusions (conclusion d)) ds
                then ''success'' else ''pending''),
             details = ds \<rparr>
      else \<lparr> checks_status = ''pending'', details = ds \<rparr>)"

definition detailOfRun :: "api_check_run \<Rightarrow> check_detail" where
  "detailOfRun run =
     \<lparr> name = run_name run, status = run_status run, conclusion = run_conclusion run \<rparr>"

text \<open>\<open>!sha\<close> holds for a missing head, a missing \<open>sha\<close> and the empty string.\<close>

definition headSha :: "api_pull \<Rightarrow> string option" where
  "headSha pr =
     (case head pr of
        None \<Rightarrow> None
      | Some h \<Rightarrow> (case sha h of None \<Rightarrow> None | Some s \<Rightarrow> if s = [] then None else Some s))"

definition getCheckStatus :: "github \<Rightarrow> string \<Rightarrow> int \<Rightarrow> error + checks" where
  "getCheckStatus g repoFullName prNumber =
     (case head_answer g repoFullName prNumber of
        Inl e \<Rightarrow> Inl e
      | Inr pr \<Rightarrow>
          (case headSha pr of
             None \<Rightarrow> Inr \<lparr> checks_status = ''unknown'', details = [] \<rparr>
           | Some s \<Rightarrow>
               (case check_runs_answer g repoFullName s of
                  Inl e \<Rightarrow> Inl e
                | Inr data \<Rightarrow>
                    Inr (reduceChecks
                          (map detailOfRun
                             (case check_runs data of None \<Rightarrow> [] | Some rs \<Rightarrow> rs))))))"

subsection \<open>getReviewStatus\<close>

text \<open>
  \<open>reviewerMap\<close> is a JavaScript \<open>Map\<close>: it iterates in insertion order, and \<open>set\<close>
  on a key it already holds replaces the value where the key stands. It is an
  association list here.
\<close>

fun mapSet :: "string \<Rightarrow> reviewer \<Rightarrow> (string \<times> reviewer) list \<Rightarrow> (string \<times> reviewer) list" where
  "mapSet k v [] = [(k, v)]"
| "mapSet k v ((k', v') # m) = (if k' = k then (k, v) # m else (k', v') # mapSet k v m)"

text \<open>The \<open>for (const review of data)\<close> loop, with the map it has built so far.\<close>

fun reviewLoop :: "string list \<Rightarrow> (string \<times> reviewer) list \<Rightarrow> api_review list
    \<Rightarrow> (string \<times> reviewer) list" where
  "reviewLoop requested reviewerMap [] = reviewerMap"
| "reviewLoop requested reviewerMap (review # rest) =
     (if review_state review \<noteq> ''PENDING'' \<and> review_state review \<noteq> ''COMMENTED''
      then (if user_login (review_user review) \<in> set requested
            then reviewLoop requested reviewerMap rest
            else reviewLoop requested
                   (mapSet (user_login (review_user review))
                      \<lparr> login = user_login (review_user review),
                        avatarUrl = user_avatar_url (review_user review),
                        state = review_state review \<rparr>
                      reviewerMap)
                   rest)
      else reviewLoop requested reviewerMap rest)"

definition reviewStatusOf :: "string list \<Rightarrow> reviewer list \<Rightarrow> string" where
  "reviewStatusOf requested rs =
     (if length requested > 0
      then (if list_ex (\<lambda>r. state r = ''CHANGES_REQUESTED'') rs
            then ''changes_requested'' else ''pending'')
      else if length rs > 0
      then (if list_ex (\<lambda>r. state r = ''CHANGES_REQUESTED'') rs then ''changes_requested''
            else if list_all (\<lambda>r. state r = ''APPROVED'') rs then ''approved''
            else ''pending'')
      else ''pending'')"

definition getReviewStatus :: "github \<Rightarrow> string \<Rightarrow> int \<Rightarrow> string list \<Rightarrow> error + reviews" where
  "getReviewStatus g repoFullName prNumber requested =
     (case reviews_answer g repoFullName prNumber of
        Inl e \<Rightarrow> Inl e
      | Inr data \<Rightarrow>
          (let rs = map snd (reviewLoop requested [] data)
           in Inr \<lparr> reviews_status = reviewStatusOf requested rs,
                    reviewers = rs,
                    pendingReviewers = Some requested \<rparr>))"

subsection \<open>sanitizeJiraUrl\<close>


text \<open>\<open>s.startsWith(p)\<close>\<close>

definition startsWith :: "string \<Rightarrow> string \<Rightarrow> bool" where
  "startsWith s p = (take (length p) s = p)"





subsection \<open>The list fetches: getMyPullRequests and getReviewRequests\<close>

record author =
  author_login :: string
  author_avatarUrl :: string
  author_name :: string

text \<open>
  The normalised pull request. \<open>pr_id\<close>, \<open>pr_state\<close> and \<open>pr_changes\<close> are the
  properties \<open>id\<close>, \<open>state\<close> and \<open>changes\<close>; \<open>pr_number\<close> and \<open>pr_repo\<close> are
  \<open>_prNumber\<close> and \<open>_repoFullName\<close>.
\<close>

record pull_request =
  pr_id :: string
  provider :: string
  title :: string
  url :: string
  repoFullName :: string
  branchName :: string
  author :: author
  pr_state :: string
  pr_changes :: changes
  checks :: checks
  reviews :: reviews
  createdAt :: string
  updatedAt :: string
  pr_number :: int
  pr_repo :: string

text \<open>
  The template literal \<open>`github-${issue.id}`\<close> prints the number in decimal (the ids of
  GitHub are integers far below the range where JavaScript switches to exponents).
\<close>

fun digitsOf :: "nat \<Rightarrow> string" where
  "digitsOf n =
     (if n < 10 then [''0123456789'' ! n]
      else digitsOf (n div 10) @ [''0123456789'' ! (n mod 10)])"

definition numberToString :: "int \<Rightarrow> string" where
  "numberToString i = (if i < 0 then ''-'' @ digitsOf (nat (- i)) else digitsOf (nat i))"

text \<open>
  \<open>url.match(/repos\/(.+)$/)\<close>, its first capture group: the text after the leftmost
  \<open>repos/\<close> that is followed, up to the end of the string, by at least one character and
  by no line terminator (\<open>.\<close> matches none). Characters are the 8-bit characters of
  \<^typ>\<open>string\<close>, whose line terminators are line feed and carriage return.
\<close>

definition lineTerminator :: "char \<Rightarrow> bool" where
  "lineTerminator c = (c = CHR 0x0A \<or> c = CHR 0x0D)"

fun reposMatch :: "string \<Rightarrow> string option" where
  "reposMatch [] = None"
| "reposMatch (c # cs) =
     (let rest = drop 6 (c # cs)
      in if startsWith (c # cs) ''repos/'' \<and> rest \<noteq> [] \<and> \<not> list_ex lineTerminator rest
         then Some rest
         else reposMatch cs)"

text \<open>
  \<open>const repoMatch = issue.repository_url?.match(...);
  const repoFullName = repoMatch ? repoMatch[1] : ''\<close>
\<close>

definition repoFullNameOf :: "api_issue \<Rightarrow> string" where
  "repoFullNameOf issue =
     (case repository_url issue of
        None \<Rightarrow> []
      | Some u \<Rightarrow> (case reposMatch u of None \<Rightarrow> [] | Some r \<Rightarrow> r))"

text \<open>
  \<open>#transformPullRequest(issue, prDetails = null)\<close>. Its callers pass as \<open>prDetails\<close>
  the object of \<open>getPullRequestDetails\<close>, which has the properties \<open>branchName\<close>,
  \<open>changes\<close>, \<open>requestedReviewers\<close> and \<open>_raw\<close> and none called \<open>head\<close>,
  \<open>additions\<close>, \<open>deletions\<close> or \<open>changed_files\<close>. So
  \<open>prDetails?.head?.ref || ''\<close> is the empty string and \<open>prDetails?.additions || 0\<close>
  and its siblings are 0, with or without the argument.
\<close>

definition transformPullRequest :: "api_issue \<Rightarrow> pr_details option \<Rightarrow> pull_request" where
  "transformPullRequest issue prDetails =
     \<lparr> pr_id = ''github-'' @ numberToString (issue_id issue),
       provider = ''github'',
       title = issue_title issue,
       url = html_url issue,
       repoFullName = repoFullNameOf issue,
       branchName = [],
       author =
         \<lparr> author_login = orEmpty (map_option user_login (issue_user issue)),
           author_avatarUrl = orEmpty (map_option user_avatar_url (issue_user issue)),
           author_name = orEmpty (map_option user_login (issue_user issue)) \<rparr>,
       pr_state = issue_state issue,
       pr_changes = \<lparr> changes_additions = 0, changes_deletions = 0, filesChanged = 0 \<rparr>,
       checks = \<lparr> checks_status = ''unknown'', details = [] \<rparr>,
       reviews = \<lparr> reviews_status = ''pending'', reviewers = [], pendingReviewers = None \<rparr>,
       createdAt = created_at issue,
       updatedAt = updated_at issue,
       pr_number = number issue,
       pr_repo = repoFullNameOf issue \<rparr>"

text \<open>
  The callback that both list fetches map over \<open>data.items\<close>. The two status fetches
  carry a \<open>.catch\<close> each, so \<open>Promise.all\<close> of them never rejects; the \<open>try\<close> block
  catches a failure of \<open>getPullRequestDetails\<close>.
\<close>

definition enrich :: "github \<Rightarrow> api_issue \<Rightarrow> pull_request" where
  "enrich g issue =
     (case getPullRequestDetails g (repoFullNameOf issue) (number issue) of
        Inl e \<Rightarrow> transformPullRequest issue None
      | Inr prDetails \<Rightarrow>
          (transformPullRequest issue (Some prDetails))
            \<lparr> branchName := details_branchName prDetails,
              pr_changes := details_changes prDetails,
              checks :=
                (case getCheckStatus g (repoFullNameOf issue) (number issue) of
                   Inl e \<Rightarrow> \<lparr> checks_status = ''unknown'', details = [] \<rparr>
                 | Inr c \<Rightarrow> c),
              reviews :=
                (case getReviewStatus g (repoFullNameOf issue) (number issue)
                        (requestedReviewers prDetails) of
                   Inl e \<Rightarrow>
                     \<lparr> reviews_status = ''pending'', reviewers = [], pendingReviewers = None \<rparr>
                 | Inr r \<Rightarrow> r) \<rparr>)"

definition getMyPullRequests :: "github \<Rightarrow> error + pull_request list" where
  "getMyPullRequests g =
     (case search_answer g
             ''/search/issues?q=author:@me+type:pr+state:open&sort=updated&order=desc'' of
        Inl e \<Rightarrow> Inl e
      | Inr data \<Rightarrow> Inr (map (enrich g) (items data)))"

definition getReviewRequests :: "github \<Rightarrow> error + pull_request list" where
  "getReviewRequests g =
     (case search_answer g
             ''/search/issues?q=review-requested:@me+type:pr+state:open&sort=updated&order=desc'' of
        Inl e \<Rightarrow> Inl e
      | Inr data \<Rightarrow> Inr (map (enrich g) (items data)))"

subsection \<open>The status dot of a card (createPRCard)\<close>

text \<open>
  The part of \<open>createPRCard\<close> that picks the class of \<open>.pr-status-dot\<close>, as a
  function of \<open>pr.checks?.status\<close> and \<open>pr.reviews?.status\<close> (\<open>None\<close> when the
  property is missing). \<open>!checksStatus\<close> holds for a missing status and for the empty
  string.
\<close>

datatype status_dot = status_green | status_yellow | status_red

definition statusDot :: "string option \<Rightarrow> string option \<Rightarrow> status_dot" where
  "statusDot checksStatus reviewsStatus =
     (let checksOk =
            (case checksStatus of
               None \<Rightarrow> True
             | Some c \<Rightarrow> c = [] \<or> c = ''success'' \<or> c = ''neutral'' \<or> c = ''unknown'');
          reviewOk = (reviewsStatus = Some ''approved'')
      in if checksOk \<and> reviewOk then status_green
         else if \<not> checksOk \<and> \<not> reviewOk then status_red
         else status_yellow)"

subsection \<open>The provider manager\<close>

record provider_instance =
  provider_name :: string
  displayName :: string
  baseUrl :: string
  token :: string

text \<open>\<open>createProvider(type, config)\<close> with \<open>config = { token, baseUrl }\<close>.\<close>

definition createProvider :: "string \<Rightarrow> string option \<Rightarrow> string option
    \<Rightarrow> error + provider_instance" where
  "createProvider type config_token config_baseUrl =
     (if type = ''github''
      then Inr \<lparr> provider_name = ''github'', displayName = ''GitHub'',
                 baseUrl = (case config_baseUrl of
                              None \<Rightarrow> ''https://api.github.com''
                            | Some b \<Rightarrow> if b = [] then ''https://api.github.com'' else b),
                 token = orEmpty config_token \<rparr>
      else Inl (Error (''Unknown provider type: '' @ type)))"

record pr_data =
  myPRs :: "pull_request list"
  reviewRequests :: "pull_request list"

text \<open>
  The manager's \<open>getMyPullRequests\<close> and \<open>getReviewRequests\<close>: they throw without a
  provider and ask the provider otherwise. The answers of GitHub to this provider are
  \<open>g\<close>.
\<close>

definition managerGetMyPullRequests :: "provider_instance option \<Rightarrow> github
    \<Rightarrow> error + pull_request list" where
  "managerGetMyPullRequests p g =
     (case p of None \<Rightarrow> Inl (Error ''No provider configured'') | Some _ \<Rightarrow> getMyPullRequests g)"

definition managerGetReviewRequests :: "provider_instance option \<Rightarrow> github
    \<Rightarrow> error + pull_request list" where
  "managerGetReviewRequests p g =
     (case p of None \<Rightarrow> Inl (Error ''No provider configured'') | Some _ \<Rightarrow> getReviewRequests g)"

text \<open>
  \<open>fetchAllPullRequests\<close> awaits \<open>Promise.all\<close> of the two list fetches: it is
  fulfilled when both are, and rejected with the error of the one that rejects first.
  When both reject, \<open>mineFirst\<close> says that \<open>getMyPullRequests\<close> was the first.
\<close>

definition fetchAllPullRequests :: "bool \<Rightarrow> provider_instance option \<Rightarrow> github
    \<Rightarrow> error + pr_data" where
  "fetchAllPullRequests mineFirst p g =
     (case managerGetMyPullRequests p g of
        Inr mine \<Rightarrow>
          (case managerGetReviewRequests p g of
             Inr requests \<Rightarrow> Inr \<lparr> myPRs = mine, reviewRequests = requests \<rparr>
           | Inl e \<Rightarrow> Inl e)
      | Inl e \<Rightarrow>
          (case managerGetReviewRequests p g of
             Inr requests \<Rightarrow> Inl e
           | Inl e' \<Rightarrow> Inl (if mineFirst then e else e')))"

subsection \<open>The service worker\<close>

text \<open>
  The service worker runs on an event loop: a handler runs until it awaits a promise that
  is not settled yet, and other events are handled before it resumes. Its state is the
  provider of the manager, the three keys of \<open>chrome.storage.local\<close>, the badge, and the
  invocations of \<open>fetchAndCachePRs\<close> that are suspended at an \<open>await\<close>. Two counters
  record what the environment sees: the calls of \<open>fetchAllPullRequests\<close> and the errors
  that the \<open>catch\<close> block of \<open>fetchAndCachePRs\<close> has logged.

  The stored provider is \<open>{ type, token, baseUrl, ... }\<close>; the stored pull requests are
  \<open>{ myPRs, reviewRequests, lastFetched }\<close>; of the settings only \<open>pinnedTab\<close> is read.
\<close>

record provider_config =
  config_type :: string
  config_token :: "string option"
  config_baseUrl :: "string option"

record snapshot =
  snapshot_myPRs :: "pull_request list"
  snapshot_reviewRequests :: "pull_request list"
  lastFetched :: nat

text \<open>
  Where an invocation of \<open>fetchAndCachePRs\<close> is suspended: in \<open>initializeProvider\<close>
  (on \<open>storage.getProvider\<close>), on \<open>fetchAllPullRequests\<close> (called on the provider of
  that moment), on \<open>storage.setPullRequests(data)\<close> (with the value it is writing), or
  in \<open>updateBadgeFromSettings(data)\<close> (on \<open>storage.getSettings\<close>).
\<close>

datatype task =
    AwaitInitializeProvider
  | AwaitFetchAll provider_instance
  | AwaitSetPullRequests pr_data snapshot
  | AwaitBadge pr_data

record worker =
  manager_provider :: "provider_instance option"
  storage_provider :: "provider_config option"
  storage_pullRequests :: "snapshot option"
  storage_pinnedTab :: "string option"
  badgeText :: string
  suspended :: "task list"
  fetchAllCalls :: nat
  consoleErrors :: "error list"

definition ALARM_NAME :: string where
  "ALARM_NAME = ''pr-poll''"

text \<open>
  \<open>fetchAndCachePRs()\<close> from its call to its first \<open>await\<close>: with a provider it calls
  \<open>fetchAllPullRequests\<close> at once, without one it starts \<open>initializeProvider\<close>. It
  reads no flag that says whether another invocation is suspended.
\<close>

definition fetchAndCachePRs :: "worker \<Rightarrow> worker" where
  "fetchAndCachePRs w =
     (case manager_provider w of
        None \<Rightarrow> w \<lparr> suspended := suspended w @ [AwaitInitializeProvider] \<rparr>
      | Some p \<Rightarrow> w \<lparr> suspended := suspended w @ [AwaitFetchAll p],
                       fetchAllCalls := Suc (fetchAllCalls w) \<rparr>)"

text \<open>The invocation \<open>i\<close> goes on to its next \<open>await\<close>, returns, or lands in \<open>catch\<close>.\<close>

definition resume :: "nat \<Rightarrow> task \<Rightarrow> worker \<Rightarrow> worker" where
  "resume i t w = w \<lparr> suspended := (suspended w)[i := t] \<rparr>"

definition returned :: "nat \<Rightarrow> worker \<Rightarrow> worker" where
  "returned i w = w \<lparr> suspended := take i (suspended w) @ drop (Suc i) (suspended w) \<rparr>"

definition caught :: "nat \<Rightarrow> error \<Rightarrow> worker \<Rightarrow> worker" where
  "caught i e w = returned i (w \<lparr> consoleErrors := consoleErrors w @ [e] \<rparr>)"

text \<open>\<open>updateBadgeFromSettings\<close> after the settings are read, and \<open>updateBadge\<close>.\<close>

definition updateBadge :: "nat \<Rightarrow> string" where
  "updateBadge count = (if count > 0 then numberToString (int count) else [])"

definition badgeFromSettings :: "string option \<Rightarrow> pr_data \<Rightarrow> string" where
  "badgeFromSettings stored_pinnedTab data =
     (let pinnedTab = (case stored_pinnedTab of
                         None \<Rightarrow> ''myPRs''
                       | Some t \<Rightarrow> if t = [] then ''myPRs'' else t)
      in updateBadge (if pinnedTab = ''myPRs'' then length (myPRs data)
                      else length (reviewRequests data)))"

text \<open>
  The events. An alarm fires with its name; the popup sends \<open>REFRESH_PRS\<close>; the storage
  call that invocation \<open>i\<close> awaits settles (with an error when it rejects); the fetch
  that invocation \<open>i\<close> awaits settles, GitHub having answered as \<open>g\<close>, at clock time
  \<open>now\<close>. A storage write takes effect when it settles without error and not at all
  when it rejects. \<open>step\<close> is \<open>None\<close> for an event that cannot happen in the state.
  The other messages of \<open>handleMessage\<close> and the \<open>onInstalled\<close> listener are left
  out.
\<close>

datatype event =
    AlarmFired string
  | RefreshMessage
  | StorageSettled nat "error option"
  | FetchSettled nat github bool nat

fun step :: "event \<Rightarrow> worker \<Rightarrow> worker option" where
  "step (AlarmFired alarm_name) w =
     Some (if alarm_name = ALARM_NAME then fetchAndCachePRs w else w)"
| "step RefreshMessage w = Some (fetchAndCachePRs w)"
| "step (StorageSettled i rejected) w =
     (if i < length (suspended w)
      then (case suspended w ! i of
              AwaitInitializeProvider \<Rightarrow>
                (case rejected of
                   Some e \<Rightarrow> Some (caught i e w)
                 | None \<Rightarrow>
                     (case storage_provider w of
                        None \<Rightarrow> Some (returned i w)
                      | Some providerConfig \<Rightarrow>
                          (case createProvider (config_type providerConfig)
                                  (config_token providerConfig) (config_baseUrl providerConfig) of
                             Inl e \<Rightarrow> Some (caught i e w)
                           | Inr p \<Rightarrow>
                               Some (resume i (AwaitFetchAll p)
                                       (w \<lparr> manager_provider := Some p,
                                            fetchAllCalls := Suc (fetchAllCalls w) \<rparr>)))))
            | AwaitFetchAll p \<Rightarrow> None
            | AwaitSetPullRequests data written \<Rightarrow>
                (case rejected of
                   Some e \<Rightarrow> Some (caught i e w)
                 | None \<Rightarrow>
                     Some (resume i (AwaitBadge data)
                             (w \<lparr> storage_pullRequests := Some written \<rparr>)))
            | AwaitBadge data \<Rightarrow>
                (case rejected of
                   Some e \<Rightarrow> Some (caught i e w)
                 | None \<Rightarrow>
                     Some (returned i
                             (w \<lparr> badgeText := badgeFromSettings (storage_pinnedTab w) data \<rparr>))))
      else None)"
| "step (FetchSettled i g mineFirst now) w =
     (if i < length (suspended w)
      then (case suspended w ! i of
              AwaitFetchAll p \<Rightarrow>
                (case fetchAllPullRequests mineFirst (Some p) g of
                   Inl e \<Rightarrow> Some (caught i e w)
                 | Inr data \<Rightarrow>
                     Some (resume i
                             (AwaitSetPullRequests data
                                \<lparr> snapshot_myPRs = myPRs data,
                                  snapshot_reviewRequests = reviewRequests data,
                                  lastFetched = now \<rparr>)
                             w))
            | _ \<Rightarrow> None)
      else None)"

fun run :: "event list \<Rightarrow> worker \<Rightarrow> worker option" where
  "run [] w = Some w"
| "run (e # es) w = (case step e w of None \<Rightarrow> None | Some w' \<Rightarrow> run es w')"

text \<open>
  One polling cycle, from the call of \<open>fetchAndCachePRs\<close> to its return, when the
  environment settles what the invocation awaits as \<open>outcomes\<close> say: whether
  \<open>storage.getProvider\<close>, \<open>storage.setPullRequests\<close> and \<open>storage.getSettings\<close>
  reject, how GitHub answers, and the clock. \<open>nextEvent\<close> is the event that resumes
  invocation \<open>i\<close>; an invocation awaits at most four times, so four rounds of
  \<open>advance\<close> bring it to its end. The invocations that were suspended before stay as
  they are.
\<close>

record outcomes =
  getProvider_rejects :: "error option"
  answers :: github
  listRace :: bool
  clock :: nat
  setPullRequests_rejects :: "error option"
  getSettings_rejects :: "error option"

definition nextEvent :: "outcomes \<Rightarrow> nat \<Rightarrow> worker \<Rightarrow> event" where
  "nextEvent out i w =
     (case suspended w ! i of
        AwaitInitializeProvider \<Rightarrow> StorageSettled i (getProvider_rejects out)
      | AwaitFetchAll p \<Rightarrow> FetchSettled i (answers out) (listRace out) (clock out)
      | AwaitSetPullRequests data written \<Rightarrow> StorageSettled i (setPullRequests_rejects out)
      | AwaitBadge data \<Rightarrow> StorageSettled i (getSettings_rejects out))"

definition advance :: "outcomes \<Rightarrow> nat \<Rightarrow> worker \<Rightarrow> worker" where
  "advance out i w =
     (if i < length (suspended w)
      then (case step (nextEvent out i w) w of None \<Rightarrow> w | Some w' \<Rightarrow> w')
      else w)"

definition runCycle :: "outcomes \<Rightarrow> worker \<Rightarrow> worker" where
  "runCycle out w =
     (let i = length (suspended w)
      in advance out i (advance out i (advance out i (advance out i (fetchAndCachePRs w)))))"

text \<open>
  The provider a cycle fetches with: the manager's, or the one that
  \<open>initializeProvider\<close> creates from the stored configuration. \<open>None\<close> when nothing
  is configured (the cycle is skipped), \<open>Inl\<close> when the initialisation throws.
\<close>

definition providerFor :: "outcomes \<Rightarrow> worker \<Rightarrow> (error + provider_instance) option" where
  "providerFor out w =
     (case manager_provider w of
        Some p \<Rightarrow> Some (Inr p)
      | None \<Rightarrow>
          (case getProvider_rejects out of
             Some e \<Rightarrow> Some (Inl e)
           | None \<Rightarrow>
               (case storage_provider w of
                  None \<Rightarrow> None
                | Some providerConfig \<Rightarrow>
                    Some (createProvider (config_type providerConfig)
                            (config_token providerConfig) (config_baseUrl providerConfig)))))"

text \<open>
  The rest of a cycle once it has a provider, read in sequence from the source: the
  fetch, then \<open>storage.setPullRequests\<close>, then the badge, each failure ending in the
  \<open>catch\<close> block. \<open>runCycle\<close> is proved to agree with it.
\<close>

definition fromFetch :: "outcomes \<Rightarrow> provider_instance \<Rightarrow> worker \<Rightarrow> worker" where
  "fromFetch out p w =
     (case fetchAllPullRequests (listRace out) (Some p) (answers out) of
        Inl e \<Rightarrow> w \<lparr> consoleErrors := consoleErrors w @ [e] \<rparr>
      | Inr data \<Rightarrow>
          (case setPullRequests_rejects out of
             Some e \<Rightarrow> w \<lparr> consoleErrors := consoleErrors w @ [e] \<rparr>
           | None \<Rightarrow>
               (case getSettings_rejects out of
                  Some e \<Rightarrow>
                    w \<lparr> storage_pullRequests :=
                          Some \<lparr> snapshot_myPRs = myPRs data,
                                 snapshot_reviewRequests = reviewRequests data,
                                 lastFetched = clock out \<rparr>,
                        consoleErrors := consoleErrors w @ [e] \<rparr>
                | None \<Rightarrow>
                    w \<lparr> storage_pullRequests :=
                          Some \<lparr> snapshot_myPRs = myPRs data,
                                 snapshot_reviewRequests = reviewRequests data,
                                 lastFetched = clock out \<rparr>,
                        badgeText := badgeFromSettings (storage_pinnedTab w) data \<rparr>)))"

subsection \<open>The platform's URL parser, on simple texts\<close>
















subsection \<open>The review reduction in the words of the specification\<close>

text \<open>
  The specification describes the reduction in steps: discard the reviews whose state is
  PENDING or COMMENTED, keep for each login its latest review, drop the logins that are
  requested again. The definitions below follow these words; they are compared with
  \<open>getReviewStatus\<close>, which is translated from the code.
\<close>

definition specKept :: "api_review list \<Rightarrow> api_review list" where
  "specKept data =
     filter (\<lambda>r. review_state r \<noteq> ''PENDING'' \<and> review_state r \<noteq> ''COMMENTED'') data"

definition specEntry :: "api_review \<Rightarrow> reviewer" where
  "specEntry r =
     \<lparr> login = user_login (review_user r), avatarUrl = user_avatar_url (review_user r),
       state = review_state r \<rparr>"

definition specLatest :: "api_review list \<Rightarrow> string \<Rightarrow> reviewer option" where
  "specLatest rs k =
     (let mine = filter (\<lambda>r. user_login (review_user r) = k) rs
      in if mine = [] then None else Some (specEntry (last mine)))"

definition specRemaining :: "api_review list \<Rightarrow> string list \<Rightarrow> string \<Rightarrow> reviewer option" where
  "specRemaining data requested k =
     (if k \<in> set requested then None else specLatest (specKept data) k)"

subsection \<open>Sample payloads\<close>

definition sampleUser :: "string \<Rightarrow> api_user" where
  "sampleUser l = \<lparr> user_login = l, user_avatar_url = ''https://avatars.test/'' @ l \<rparr>"

definition sampleReview :: "string \<Rightarrow> string \<Rightarrow> api_review" where
  "sampleReview l st = \<lparr> review_user = sampleUser l, review_state = st \<rparr>"

definition sampleRun :: "string \<Rightarrow> string \<Rightarrow> string option \<Rightarrow> api_check_run" where
  "sampleRun nm st c = \<lparr> run_name = nm, run_status = st, run_conclusion = c \<rparr>"

definition samplePull :: "string list \<Rightarrow> api_pull" where
  "samplePull requested =
     \<lparr> head = Some \<lparr> ref = Some ''feat/JIRA-12/fix'', sha = Some ''c0ffee'' \<rparr>,
       additions = Some 10, deletions = Some 2, changed_files = Some 3,
       requested_reviewers = Some (map sampleUser requested) \<rparr>"

definition sampleIssue :: "int \<Rightarrow> api_issue" where
  "sampleIssue n =
     \<lparr> issue_id = 9000 + n, issue_title = ''Fix the build'',
       html_url = ''https://github.test/octo/demo/pull/'' @ numberToString n,
       repository_url = Some ''https://api.github.test/repos/octo/demo'',
       issue_user = Some (sampleUser ''dana''), issue_state = ''open'',
       created_at = ''2025-01-01T00:00:00Z'', updated_at = ''2025-01-02T00:00:00Z'',
       number = n \<rparr>"

text \<open>
  A GitHub that answers every request: one pull request per repository and number, with
  the given requested reviewers, check runs and reviews.
\<close>

definition sampleGithub :: "api_issue list \<Rightarrow> string list \<Rightarrow> api_check_run list
    \<Rightarrow> api_review list \<Rightarrow> github" where
  "sampleGithub found requested runs revs =
     \<lparr> search_answer = (\<lambda>endpoint. Inr \<lparr> items = found \<rparr>),
       pull_answer = (\<lambda>repo n. Inr (samplePull requested)),
       head_answer = (\<lambda>repo n. Inr (samplePull requested)),
       check_runs_answer = (\<lambda>repo s. Inr \<lparr> check_runs = Some runs \<rparr>),
       reviews_answer = (\<lambda>repo n. Inr revs) \<rparr>"

text \<open>The same GitHub with one kind of request failing.\<close>

definition failingReviews :: "github \<Rightarrow> github" where
  "failingReviews g = g \<lparr> reviews_answer := (\<lambda>repo n. Inl (Error ''HTTP 502'')) \<rparr>"

definition failingCheckRuns :: "github \<Rightarrow> github" where
  "failingCheckRuns g = g \<lparr> check_runs_answer := (\<lambda>repo s. Inl (Error ''HTTP 502'')) \<rparr>"

definition failingSearch :: "github \<Rightarrow> github" where
  "failingSearch g = g \<lparr> search_answer := (\<lambda>endpoint. Inl (Error ''HTTP 500'')) \<rparr>"

definition failingPull :: "int \<Rightarrow> github \<Rightarrow> github" where
  "failingPull k g =
     g \<lparr> pull_answer := (\<lambda>repo n. if n = k then Inl (Error ''HTTP 502'') else pull_answer g repo n) \<rparr>"

text \<open>
  A worker with a provider, no invocation suspended and a snapshot of an earlier cycle;
  and outcomes of a cycle in which every request and every storage call succeeds.
\<close>

definition sampleProvider :: provider_instance where
  "sampleProvider =
     \<lparr> provider_name = ''github'', displayName = ''GitHub'',
       baseUrl = ''https://api.github.com'', token = ''t0ken'' \<rparr>"

definition sampleWorker :: worker where
  "sampleWorker =
     \<lparr> manager_provider = Some sampleProvider,
       storage_provider =
         Some \<lparr> config_type = ''github'', config_token = Some ''t0ken'', config_baseUrl = None \<rparr>,
       storage_pullRequests =
         Some \<lparr> snapshot_myPRs = [transformPullRequest (sampleIssue 3) None],
                snapshot_reviewRequests = [], lastFetched = 1000 \<rparr>,
       storage_pinnedTab = None,
       badgeText = ''1'',
       suspended = [],
       fetchAllCalls = 0,
       consoleErrors = [] \<rparr>"

definition sampleOutcomes :: outcomes where
  "sampleOutcomes =
     \<lparr> getProvider_rejects = None,
       answers = sampleGithub [] [] [] [],
       listRace = True,
       clock = 2000,
       setPullRequests_rejects = None,
       getSettings_rejects = None \<rparr>"

section \<open>Properties of the status reductions\<close>

subsection \<open>Check runs\<close>

lemma getCheckStatus_fetched:
  assumes "head_answer g repo n = Inr pr" and "headSha pr = Some s"
    and "check_runs_answer g repo s = Inr data"
  shows "getCheckStatus g repo n =
     Inr (reduceChecks (map detailOfRun (case check_runs data of None \<Rightarrow> [] | Some rs \<Rightarrow> rs)))"
  using assms by (simp add: getCheckStatus_def)

lemma failure_class_iff:
  "arrayIncludes failureConclusions c \<longleftrightarrow>
     c \<in> {Some ''failure'', Some ''timed_out'', Some ''cancelled'', Some ''startup_failure'',
          Some ''action_required''}"
  by (cases c) (auto simp: arrayIncludes_def failureConclusions_def)

lemma success_class_iff:
  "arrayIncludes successConclusions c \<longleftrightarrow>
     c \<in> {Some ''success'', Some ''skipped'', Some ''neutral''}"
  by (cases c) (auto simp: arrayIncludes_def successConclusions_def)

lemma any_failure_runs:
  "list_ex (\<lambda>d. arrayIncludes failureConclusions (conclusion d)) (map detailOfRun runs) \<longleftrightarrow>
     (\<exists>run \<in> set runs. run_conclusion run \<in>
        {Some ''failure'', Some ''timed_out'', Some ''cancelled'', Some ''startup_failure'',
         Some ''action_required''})"
  by (simp add: list_ex_iff detailOfRun_def failure_class_iff)

lemma all_complete_runs:
  "list_all (\<lambda>d. status d = ''completed'') (map detailOfRun runs) \<longleftrightarrow>
     (\<forall>run \<in> set runs. run_status run = ''completed'')"
  by (simp add: list_all_iff detailOfRun_def)

lemma all_success_runs:
  "list_all (\<lambda>d. arrayIncludes successConclusions (conclusion d)) (map detailOfRun runs) \<longleftrightarrow>
     (\<forall>run \<in> set runs. run_conclusion run \<in>
        {Some ''success'', Some ''skipped'', Some ''neutral''})"
  by (simp add: list_all_iff detailOfRun_def success_class_iff)

text \<open>
  Claim C2. When the two requests of \<open>getCheckStatus\<close> succeed and at least one of the
  check runs has a conclusion among failure, timed_out, cancelled, startup_failure and
  action_required, the status is \<open>failure\<close>, whatever the status and the conclusion of
  the other runs (also of runs still in progress).
\<close>

theorem failure_preempts_other_runs:
  assumes "head_answer g repo n = Inr pr" and "headSha pr = Some s"
    and "check_runs_answer g repo s = Inr data" and "check_runs data = Some runs"
    and "\<exists>run \<in> set runs. run_conclusion run \<in>
           {Some ''failure'', Some ''timed_out'', Some ''cancelled'', Some ''startup_failure'',
            Some ''action_required''}"
  shows "getCheckStatus g repo n =
           Inr \<lparr> checks_status = ''failure'', details = map detailOfRun runs \<rparr>"
proof -
  from assms(5) have "runs \<noteq> []" by auto
  moreover from assms(5)
  have "list_ex (\<lambda>d. arrayIncludes failureConclusions (conclusion d)) (map detailOfRun runs)"
    by (simp only: any_failure_runs)
  ultimately have "reduceChecks (map detailOfRun runs) =
      \<lparr> checks_status = ''failure'', details = map detailOfRun runs \<rparr>"
    by (simp add: reduceChecks_def)
  with getCheckStatus_fetched [OF assms(1-3)] assms(4) show ?thesis by simp
qed

theorem failure_preempts_other_runs_witness:
  "getCheckStatus
     (sampleGithub [] []
        [sampleRun ''build'' ''completed'' (Some ''failure''),
         sampleRun ''deploy'' ''in_progress'' None] [])
     ''octo/demo'' 7 =
   Inr \<lparr> checks_status = ''failure'',
         details = [\<lparr> name = ''build'', status = ''completed'', conclusion = Some ''failure'' \<rparr>,
                    \<lparr> name = ''deploy'', status = ''in_progress'', conclusion = None \<rparr>] \<rparr>"
proof -
  let ?runs = "[sampleRun ''build'' ''completed'' (Some ''failure''),
                sampleRun ''deploy'' ''in_progress'' None]"
  have "getCheckStatus (sampleGithub [] [] ?runs []) ''octo/demo'' 7 =
          Inr \<lparr> checks_status = ''failure'', details = map detailOfRun ?runs \<rparr>"
    by (rule failure_preempts_other_runs
          [where pr = "samplePull []" and s = "''c0ffee''"
             and data = "\<lparr> check_runs = Some ?runs \<rparr>"])
       (simp_all add: sampleGithub_def samplePull_def headSha_def sampleRun_def)
  then show ?thesis by (simp add: detailOfRun_def sampleRun_def)
qed

text \<open>
  Claim C7. When the two requests of \<open>getCheckStatus\<close> succeed: with no check runs the
  status is \<open>unknown\<close>; with at least one run, none of a failure-class conclusion and all
  of status completed, the status is \<open>success\<close> exactly when every conclusion is
  success, skipped or neutral, and \<open>pending\<close> otherwise; with a run that is not completed
  and none of a failure-class conclusion the status is \<open>pending\<close>.
\<close>

theorem check_reduction_cases:
  assumes "head_answer g repo n = Inr pr" and "headSha pr = Some s"
    and "check_runs_answer g repo s = Inr data"
    and "runs = (case check_runs data of None \<Rightarrow> [] | Some rs \<Rightarrow> rs)"
    and "failed = (\<exists>run \<in> set runs. run_conclusion run \<in>
           {Some ''failure'', Some ''timed_out'', Some ''cancelled'', Some ''startup_failure'',
            Some ''action_required''})"
  shows "(runs = [] \<longrightarrow>
            getCheckStatus g repo n = Inr \<lparr> checks_status = ''unknown'', details = [] \<rparr>)
       \<and> (runs \<noteq> [] \<and> \<not> failed \<and> (\<forall>run \<in> set runs. run_status run = ''completed'') \<longrightarrow>
            getCheckStatus g repo n =
              Inr \<lparr> checks_status =
                      (if \<forall>run \<in> set runs. run_conclusion run \<in>
                            {Some ''success'', Some ''skipped'', Some ''neutral''}
                       then ''success'' else ''pending''),
                    details = map detailOfRun runs \<rparr>)
       \<and> (\<not> failed \<and> (\<exists>run \<in> set runs. run_status run \<noteq> ''completed'') \<longrightarrow>
            getCheckStatus g repo n =
              Inr \<lparr> checks_status = ''pending'', details = map detailOfRun runs \<rparr>)"
proof -
  have fetched: "getCheckStatus g repo n = Inr (reduceChecks (map detailOfRun runs))"
    using getCheckStatus_fetched [OF assms(1-3)] assms(4) by simp
  have failed: "failed \<longleftrightarrow>
      list_ex (\<lambda>d. arrayIncludes failureConclusions (conclusion d)) (map detailOfRun runs)"
    by (simp only: assms(5) any_failure_runs)
  have empty: "runs = [] \<longrightarrow>
      getCheckStatus g repo n = Inr \<lparr> checks_status = ''unknown'', details = [] \<rparr>"
    by (simp add: fetched reduceChecks_def)
  have complete: "runs \<noteq> [] \<and> \<not> failed \<and> (\<forall>run \<in> set runs. run_status run = ''completed'') \<longrightarrow>
      getCheckStatus g repo n =
        Inr \<lparr> checks_status =
                (if \<forall>run \<in> set runs. run_conclusion run \<in>
                      {Some ''success'', Some ''skipped'', Some ''neutral''}
                 then ''success'' else ''pending''),
              details = map detailOfRun runs \<rparr>"
  proof (intro impI, elim conjE)
    assume ne: "runs \<noteq> []" and nf: "\<not> failed"
      and ac: "\<forall>run \<in> set runs. run_status run = ''completed''"
    from nf failed
    have nf': "\<not> list_ex (\<lambda>d. arrayIncludes failureConclusions (conclusion d))
                  (map detailOfRun runs)"
      by blast
    from ac have ac': "list_all (\<lambda>d. status d = ''completed'') (map detailOfRun runs)"
      by (simp only: all_complete_runs)
    have "reduceChecks (map detailOfRun runs) =
        \<lparr> checks_status =
            (if list_all (\<lambda>d. arrayIncludes successConclusions (conclusion d))
                  (map detailOfRun runs)
             then ''success'' else ''pending''),
          details = map detailOfRun runs \<rparr>"
      using ne nf' ac' by (simp add: reduceChecks_def)
    then show "getCheckStatus g repo n =
        Inr \<lparr> checks_status =
                (if \<forall>run \<in> set runs. run_conclusion run \<in>
                      {Some ''success'', Some ''skipped'', Some ''neutral''}
                 then ''success'' else ''pending''),
              details = map detailOfRun runs \<rparr>"
      by (simp only: fetched all_success_runs)
  qed
  have incomplete: "\<not> failed \<and> (\<exists>run \<in> set runs. run_status run \<noteq> ''completed'') \<longrightarrow>
      getCheckStatus g repo n =
        Inr \<lparr> checks_status = ''pending'', details = map detailOfRun runs \<rparr>"
  proof (intro impI, elim conjE)
    assume nf: "\<not> failed" and ex: "\<exists>run \<in> set runs. run_status run \<noteq> ''completed''"
    from ex have ne: "runs \<noteq> []" by auto
    from ex have "\<not> list_all (\<lambda>d. status d = ''completed'') (map detailOfRun runs)"
      unfolding all_complete_runs by blast
    moreover from nf failed
    have "\<not> list_ex (\<lambda>d. arrayIncludes failureConclusions (conclusion d))
              (map detailOfRun runs)"
      by blast
    ultimately have "reduceChecks (map detailOfRun runs) =
        \<lparr> checks_status = ''pending'', details = map detailOfRun runs \<rparr>"
      using ne by (simp add: reduceChecks_def)
    then show "getCheckStatus g repo n =
        Inr \<lparr> checks_status = ''pending'', details = map detailOfRun runs \<rparr>"
      by (simp only: fetched)
  qed
  from empty complete incomplete show ?thesis by blast
qed

theorem check_reduction_cases_witness:
  "getCheckStatus (sampleGithub [] [] [] []) ''octo/demo'' 7 =
     Inr \<lparr> checks_status = ''unknown'', details = [] \<rparr>
   \<and> getCheckStatus
       (sampleGithub [] []
          [sampleRun ''build'' ''completed'' (Some ''success''),
           sampleRun ''lint'' ''completed'' (Some ''skipped'')] [])
       ''octo/demo'' 7 =
     Inr \<lparr> checks_status = ''success'',
           details = [\<lparr> name = ''build'', status = ''completed'', conclusion = Some ''success'' \<rparr>,
                      \<lparr> name = ''lint'', status = ''completed'', conclusion = Some ''skipped'' \<rparr>] \<rparr>
   \<and> getCheckStatus
       (sampleGithub [] [] [sampleRun ''build'' ''completed'' (Some ''stale'')] [])
       ''octo/demo'' 7 =
     Inr \<lparr> checks_status = ''pending'',
           details = [\<lparr> name = ''build'', status = ''completed'', conclusion = Some ''stale'' \<rparr>] \<rparr>
   \<and> getCheckStatus
       (sampleGithub [] []
          [sampleRun ''build'' ''completed'' (Some ''success''),
           sampleRun ''deploy'' ''queued'' None] [])
       ''octo/demo'' 7 =
     Inr \<lparr> checks_status = ''pending'',
           details = [\<lparr> name = ''build'', status = ''completed'', conclusion = Some ''success'' \<rparr>,
                      \<lparr> name = ''deploy'', status = ''queued'', conclusion = None \<rparr>] \<rparr>"
proof -
  have answers: "head_answer (sampleGithub [] [] runs []) ''octo/demo'' 7 = Inr (samplePull [])"
    "headSha (samplePull []) = Some ''c0ffee''"
    "check_runs_answer (sampleGithub [] [] runs []) ''octo/demo'' ''c0ffee'' =
       Inr \<lparr> check_runs = Some runs \<rparr>"
    "runs = (case check_runs \<lparr> check_runs = Some runs \<rparr> of None \<Rightarrow> [] | Some rs \<Rightarrow> rs)"
    for runs
    by (simp_all add: sampleGithub_def samplePull_def headSha_def)
  note cases = check_reduction_cases [OF answers refl]
  have 1: "getCheckStatus (sampleGithub [] [] [] []) ''octo/demo'' 7 =
             Inr \<lparr> checks_status = ''unknown'', details = [] \<rparr>"
    using cases [of "[]"] by simp
  have 2: "getCheckStatus
       (sampleGithub [] []
          [sampleRun ''build'' ''completed'' (Some ''success''),
           sampleRun ''lint'' ''completed'' (Some ''skipped'')] [])
       ''octo/demo'' 7 =
     Inr \<lparr> checks_status = ''success'',
           details = [\<lparr> name = ''build'', status = ''completed'', conclusion = Some ''success'' \<rparr>,
                      \<lparr> name = ''lint'', status = ''completed'', conclusion = Some ''skipped'' \<rparr>] \<rparr>"
    using cases [of "[sampleRun ''build'' ''completed'' (Some ''success''),
                      sampleRun ''lint'' ''completed'' (Some ''skipped'')]"]
    by (simp add: sampleRun_def detailOfRun_def)
  have 3: "getCheckStatus
       (sampleGithub [] [] [sampleRun ''build'' ''completed'' (Some ''stale'')] [])
       ''octo/demo'' 7 =
     Inr \<lparr> checks_status = ''pending'',
           details = [\<lparr> name = ''build'', status = ''completed'', conclusion = Some ''stale'' \<rparr>] \<rparr>"
    using cases [of "[sampleRun ''build'' ''completed'' (Some ''stale'')]"]
    by (simp add: sampleRun_def detailOfRun_def)
  have 4: "getCheckStatus
       (sampleGithub [] []
          [sampleRun ''build'' ''completed'' (Some ''success''),
           sampleRun ''deploy'' ''queued'' None] [])
       ''octo/demo'' 7 =
     Inr \<lparr> checks_status = ''pending'',
           details = [\<lparr> name = ''build'', status = ''completed'', conclusion = Some ''success'' \<rparr>,
                      \<lparr> name = ''deploy'', status = ''queued'', conclusion = None \<rparr>] \<rparr>"
    using cases [of "[sampleRun ''build'' ''completed'' (Some ''success''),
                      sampleRun ''deploy'' ''queued'' None]"]
    by (simp add: sampleRun_def detailOfRun_def)
  from 1 2 3 4 show ?thesis by (intro conjI)
qed

subsection \<open>Reviews\<close>

lemma map_of_mapSet: "map_of (mapSet k v m) = (map_of m)(k \<mapsto> v)"
  by (induction m) (auto simp: fun_eq_iff)

lemma keys_mapSet:
  "map fst (mapSet k v m) = (if k \<in> set (map fst m) then map fst m else map fst m @ [k])"
  by (induction m) force+

lemma distinct_mapSet: "distinct (map fst m) \<Longrightarrow> distinct (map fst (mapSet k v m))"
  by (simp add: keys_mapSet)

lemma set_mapSet: "set (mapSet k v m) \<subseteq> insert (k, v) (set m)"
  by (induction m) (auto split: if_splits)

lemma specLatest_Cons:
  "specLatest (r # rs) k =
     (case specLatest rs k of
        Some v \<Rightarrow> Some v
      | None \<Rightarrow> if user_login (review_user r) = k then Some (specEntry r) else None)"
  by (simp add: specLatest_def Let_def)

text \<open>
  The loop invariant: a login the rest of the reviews decides has the entry the
  specification gives it, every other login keeps what the map held before.
\<close>

lemma reviewLoop_map_of:
  "map_of (reviewLoop requested m data) k =
     (case specRemaining data requested k of Some v \<Rightarrow> Some v | None \<Rightarrow> map_of m k)"
proof (induction data arbitrary: m)
  case Nil
  show ?case by (simp add: specRemaining_def specKept_def specLatest_def)
next
  case (Cons r rest)
  show ?case
    using Cons.IH
    by (auto simp: specRemaining_def specKept_def specLatest_Cons map_of_mapSet specEntry_def
             split: option.splits)
qed

lemma reviewLoop_distinct:
  "distinct (map fst m) \<Longrightarrow> distinct (map fst (reviewLoop requested m data))"
  by (induction data arbitrary: m) (auto simp: distinct_mapSet)

lemma reviewLoop_keyed:
  "\<forall>p \<in> set m. login (snd p) = fst p \<and> fst p \<notin> set requested \<Longrightarrow>
   \<forall>p \<in> set (reviewLoop requested m data). login (snd p) = fst p \<and> fst p \<notin> set requested"
proof (induction data arbitrary: m)
  case Nil
  then show ?case by simp
next
  case (Cons r rest)
  show ?case
  proof (cases "review_state r \<noteq> ''PENDING'' \<and> review_state r \<noteq> ''COMMENTED''
                \<and> user_login (review_user r) \<notin> set requested")
    case True
    let ?e = "\<lparr> login = user_login (review_user r), avatarUrl = user_avatar_url (review_user r),
                state = review_state r \<rparr>"
    have "\<forall>p \<in> set (mapSet (user_login (review_user r)) ?e m).
            login (snd p) = fst p \<and> fst p \<notin> set requested"
      using Cons.prems True set_mapSet [of "user_login (review_user r)" ?e m] by auto
    from Cons.IH [OF this] True show ?thesis by simp
  next
    case False
    with Cons.IH [OF Cons.prems] show ?thesis by auto
  qed
qed

lemma keyed_relabel:
  "\<forall>p \<in> set m. login (snd p) = fst p \<Longrightarrow> map (\<lambda>r. (login r, r)) (map snd m) = m"
  by (induction m) auto

lemma keyed_logins:
  "\<forall>p \<in> set m. login (snd p) = fst p \<Longrightarrow> map login (map snd m) = map fst m"
  by (induction m) auto

lemma reviewStatusOf_cases:
  "reviewStatusOf requested rs =
     (if \<exists>r \<in> set rs. state r = ''CHANGES_REQUESTED'' then ''changes_requested''
      else if requested \<noteq> [] then ''pending''
      else if rs \<noteq> [] \<and> (\<forall>r \<in> set rs. state r = ''APPROVED'') then ''approved''
      else ''pending'')"
  by (auto simp: reviewStatusOf_def list_ex_iff list_all_iff)

text \<open>
  Claim C1. When the request for the reviews succeeds, \<open>getReviewStatus\<close> returns, and
  its reviewers are those the specification's steps leave: the reviews in state PENDING or
  COMMENTED discarded, the latest remaining review of each login kept, the requested
  logins excluded (one entry per login). The status is \<open>changes_requested\<close> if a
  remaining reviewer has state CHANGES_REQUESTED; otherwise \<open>pending\<close> if a reviewer is
  requested; otherwise \<open>approved\<close> if there are remaining reviewers and all have state
  APPROVED, and \<open>pending\<close> if not (so also with no remaining reviewer).
\<close>

theorem review_reduction_follows_spec:
  assumes "reviews_answer g repo n = Inr data"
  shows "\<exists>res. getReviewStatus g repo n requested = Inr res
     \<and> distinct (map login (reviewers res))
     \<and> map_of (map (\<lambda>r. (login r, r)) (reviewers res)) = specRemaining data requested
     \<and> reviews_status res =
         (if \<exists>r \<in> set (reviewers res). state r = ''CHANGES_REQUESTED''
          then ''changes_requested''
          else if requested \<noteq> [] then ''pending''
          else if reviewers res \<noteq> [] \<and> (\<forall>r \<in> set (reviewers res). state r = ''APPROVED'')
          then ''approved''
          else ''pending'')"
proof -
  define m where "m = reviewLoop requested [] data"
  define res where "res = \<lparr> reviews_status = reviewStatusOf requested (map snd m),
                            reviewers = map snd m, pendingReviewers = Some requested \<rparr>"
  have returned: "getReviewStatus g repo n requested = Inr res"
    using assms by (simp add: getReviewStatus_def res_def m_def Let_def)
  have keyed: "\<forall>p \<in> set m. login (snd p) = fst p"
    using reviewLoop_keyed [of "[]" requested data] by (simp add: m_def)
  then have relabel: "map (\<lambda>r. (login r, r)) (map snd m) = m"
    by (rule keyed_relabel)
  have "distinct (map fst m)"
    unfolding m_def by (rule reviewLoop_distinct) simp
  then have "distinct (map login (map snd m))"
    by (simp only: keyed_logins [OF keyed])
  then have one_each: "distinct (map login (reviewers res))"
    by (simp only: res_def reviews.simps)
  have "map_of m k = specRemaining data requested k" for k
    unfolding m_def reviewLoop_map_of by (simp split: option.split)
  then have "map_of m = specRemaining data requested"
    by (simp add: fun_eq_iff)
  then have "map_of (map (\<lambda>r. (login r, r)) (map snd m)) = specRemaining data requested"
    by (simp only: relabel)
  then have remaining: "map_of (map (\<lambda>r. (login r, r)) (reviewers res)) =
      specRemaining data requested"
    by (simp only: res_def reviews.simps)
  have overall: "reviews_status res =
         (if \<exists>r \<in> set (reviewers res). state r = ''CHANGES_REQUESTED''
          then ''changes_requested''
          else if requested \<noteq> [] then ''pending''
          else if reviewers res \<noteq> [] \<and> (\<forall>r \<in> set (reviewers res). state r = ''APPROVED'')
          then ''approved''
          else ''pending'')"
    unfolding res_def reviews.simps by (rule reviewStatusOf_cases)
  from returned one_each remaining overall show ?thesis by blast
qed

theorem review_reduction_follows_spec_witness:
  "getReviewStatus
     (sampleGithub [] [''ann''] []
        [sampleReview ''ann'' ''CHANGES_REQUESTED'', sampleReview ''bob'' ''COMMENTED'',
         sampleReview ''bob'' ''CHANGES_REQUESTED'', sampleReview ''cy'' ''APPROVED'',
         sampleReview ''bob'' ''APPROVED''])
     ''octo/demo'' 7 [''ann''] =
   Inr \<lparr> reviews_status = ''pending'',
         reviewers =
           [\<lparr> login = ''bob'', avatarUrl = ''https://avatars.test/bob'', state = ''APPROVED'' \<rparr>,
            \<lparr> login = ''cy'', avatarUrl = ''https://avatars.test/cy'', state = ''APPROVED'' \<rparr>],
         pendingReviewers = Some [''ann''] \<rparr>"
proof -
  let ?data = "[sampleReview ''ann'' ''CHANGES_REQUESTED'', sampleReview ''bob'' ''COMMENTED'',
         sampleReview ''bob'' ''CHANGES_REQUESTED'', sampleReview ''cy'' ''APPROVED'',
         sampleReview ''bob'' ''APPROVED'']"
  have answer: "reviews_answer (sampleGithub [] [''ann''] [] ?data) ''octo/demo'' 7 = Inr ?data"
    by (simp add: sampleGithub_def)
  from review_reduction_follows_spec [OF answer, of "[''ann'']"]
  obtain res where res: "getReviewStatus (sampleGithub [] [''ann''] [] ?data) ''octo/demo'' 7
      [''ann''] = Inr res"
    by blast
  have "getReviewStatus (sampleGithub [] [''ann''] [] ?data) ''octo/demo'' 7 [''ann''] =
     Inr \<lparr> reviews_status = ''pending'',
         reviewers =
           [\<lparr> login = ''bob'', avatarUrl = ''https://avatars.test/bob'', state = ''APPROVED'' \<rparr>,
            \<lparr> login = ''cy'', avatarUrl = ''https://avatars.test/cy'', state = ''APPROVED'' \<rparr>],
         pendingReviewers = Some [''ann''] \<rparr>"
    using res
    by (simp add: getReviewStatus_def sampleGithub_def sampleReview_def sampleUser_def
          reviewStatusOf_def Let_def)
  then show ?thesis .
qed

text \<open>
  Claim C9. In every value that \<open>getReviewStatus\<close> returns, \<open>pendingReviewers\<close> is the
  list of requested logins, and none of them is the login of an entry of \<open>reviewers\<close>.
\<close>

theorem pending_reviewers_not_listed:
  assumes "getReviewStatus g repo n requested = Inr res"
  shows "pendingReviewers res = Some requested
       \<and> set requested \<inter> login ` set (reviewers res) = {}"
proof -
  from assms obtain data where
    res: "res = \<lparr> reviews_status = reviewStatusOf requested
                     (map snd (reviewLoop requested [] data)),
                  reviewers = map snd (reviewLoop requested [] data),
                  pendingReviewers = Some requested \<rparr>"
    by (auto simp: getReviewStatus_def Let_def split: sum.splits)
  have "\<forall>p \<in> set (reviewLoop requested [] data).
          login (snd p) = fst p \<and> fst p \<notin> set requested"
    by (rule reviewLoop_keyed) simp
  then have "\<forall>r \<in> set (reviewers res). login r \<notin> set requested"
    by (auto simp: res)
  then show ?thesis by (auto simp: res)
qed

theorem pending_reviewers_not_listed_witness:
  "pendingReviewers
     \<lparr> reviews_status = ''pending'',
       reviewers =
         [\<lparr> login = ''bob'', avatarUrl = ''https://avatars.test/bob'', state = ''APPROVED'' \<rparr>],
       pendingReviewers = Some [''ann''] \<rparr> = Some [''ann'']
   \<and> set [''ann''] \<inter>
       login ` set (reviewers
         \<lparr> reviews_status = ''pending'',
           reviewers =
             [\<lparr> login = ''bob'', avatarUrl = ''https://avatars.test/bob'', state = ''APPROVED'' \<rparr>],
           pendingReviewers = Some [''ann''] \<rparr>) = {}"
proof (rule pending_reviewers_not_listed)
  show "getReviewStatus
     (sampleGithub [] [''ann''] []
        [sampleReview ''ann'' ''CHANGES_REQUESTED'', sampleReview ''bob'' ''APPROVED''])
     ''octo/demo'' 7 [''ann''] =
   Inr \<lparr> reviews_status = ''pending'',
         reviewers =
           [\<lparr> login = ''bob'', avatarUrl = ''https://avatars.test/bob'', state = ''APPROVED'' \<rparr>],
         pendingReviewers = Some [''ann''] \<rparr>"
    by (simp add: getReviewStatus_def sampleGithub_def sampleReview_def sampleUser_def
          reviewStatusOf_def Let_def)
qed

section \<open>Properties of the list fetches\<close>

lemma sample_repo: "repoFullNameOf (sampleIssue n) = ''octo/demo''"
  by (simp add: repoFullNameOf_def sampleIssue_def startsWith_def lineTerminator_def)

lemma sample_number: "number (sampleIssue n) = n"
  by (simp add: sampleIssue_def)

lemma sample_details:
  "pull_answer g repo n = Inr (samplePull requested) \<Longrightarrow>
   getPullRequestDetails g repo n =
     Inr \<lparr> details_branchName = ''feat/JIRA-12/fix'',
           details_changes =
             \<lparr> changes_additions = 10, changes_deletions = 2, filesChanged = 3 \<rparr>,
           requestedReviewers = requested,
           raw = samplePull requested \<rparr>"
  by (simp add: getPullRequestDetails_def samplePull_def orEmpty_def orZero_def
        sampleUser_def comp_def)

text \<open>
  Claim C4, as the code has it. When the detail fetch of an item succeeded and its
  review-status fetch throws, the item's reviews are \<open>{ status: 'pending', reviewers: [] }\<close>:
  the substituted object has no \<open>pendingReviewers\<close> property, so it does not carry the
  requested reviewer logins. \<open>enrich\<close> is the callback of both \<open>getMyPullRequests\<close> and
  \<open>getReviewRequests\<close>.
\<close>

theorem review_failure_leaves_default:
  assumes "getPullRequestDetails g (repoFullNameOf issue) (number issue) = Inr prDetails"
    and "getReviewStatus g (repoFullNameOf issue) (number issue) (requestedReviewers prDetails)
           = Inl e"
  shows "reviews (enrich g issue) =
           \<lparr> reviews_status = ''pending'', reviewers = [], pendingReviewers = None \<rparr>"
  using assms by (simp add: enrich_def)

theorem review_failure_leaves_default_witness:
  "reviews (enrich (failingReviews (sampleGithub [] [''ann''] [] [])) (sampleIssue 7)) =
     \<lparr> reviews_status = ''pending'', reviewers = [], pendingReviewers = None \<rparr>"
proof (rule review_failure_leaves_default)
  show "getPullRequestDetails (failingReviews (sampleGithub [] [''ann''] [] []))
          (repoFullNameOf (sampleIssue 7)) (number (sampleIssue 7)) =
        Inr \<lparr> details_branchName = ''feat/JIRA-12/fix'',
              details_changes =
                \<lparr> changes_additions = 10, changes_deletions = 2, filesChanged = 3 \<rparr>,
              requestedReviewers = [''ann''],
              raw = samplePull [''ann''] \<rparr>"
    by (rule sample_details) (simp add: failingReviews_def sampleGithub_def)
  show "getReviewStatus (failingReviews (sampleGithub [] [''ann''] [] []))
          (repoFullNameOf (sampleIssue 7)) (number (sampleIssue 7))
          (requestedReviewers
             \<lparr> details_branchName = ''feat/JIRA-12/fix'',
               details_changes =
                 \<lparr> changes_additions = 10, changes_deletions = 2, filesChanged = 3 \<rparr>,
               requestedReviewers = [''ann''],
               raw = samplePull [''ann''] \<rparr>) =
        Inl (Error ''HTTP 502'')"
    by (simp add: getReviewStatus_def failingReviews_def sampleGithub_def)
qed

text \<open>
  The claim as stated fails: the detail fetch gives the requested reviewer \<open>ann\<close>, the
  review-status fetch throws, and the item's reviews are not
  \<open>{ status: 'pending', reviewers: [], pendingReviewers: ['ann'] }\<close>.
\<close>

theorem review_fallback_without_pending_reviewers:
  "map_sum id requestedReviewers
     (getPullRequestDetails (failingReviews (sampleGithub [] [''ann''] [] []))
        (repoFullNameOf (sampleIssue 7)) (number (sampleIssue 7))) = Inr [''ann'']
   \<and> getReviewStatus (failingReviews (sampleGithub [] [''ann''] [] []))
       (repoFullNameOf (sampleIssue 7)) (number (sampleIssue 7)) [''ann''] =
     Inl (Error ''HTTP 502'')
   \<and> reviews (enrich (failingReviews (sampleGithub [] [''ann''] [] [])) (sampleIssue 7)) \<noteq>
     \<lparr> reviews_status = ''pending'', reviewers = [], pendingReviewers = Some [''ann''] \<rparr>"
proof -
  have details: "getPullRequestDetails (failingReviews (sampleGithub [] [''ann''] [] []))
          (repoFullNameOf (sampleIssue 7)) (number (sampleIssue 7)) =
        Inr \<lparr> details_branchName = ''feat/JIRA-12/fix'',
              details_changes =
                \<lparr> changes_additions = 10, changes_deletions = 2, filesChanged = 3 \<rparr>,
              requestedReviewers = [''ann''],
              raw = samplePull [''ann''] \<rparr>"
    by (rule sample_details) (simp add: failingReviews_def sampleGithub_def)
  have thrown: "getReviewStatus (failingReviews (sampleGithub [] [''ann''] [] []))
       (repoFullNameOf (sampleIssue 7)) (number (sampleIssue 7)) [''ann''] =
     Inl (Error ''HTTP 502'')"
    by (simp add: getReviewStatus_def failingReviews_def sampleGithub_def)
  have "reviews (enrich (failingReviews (sampleGithub [] [''ann''] [] [])) (sampleIssue 7)) =
     \<lparr> reviews_status = ''pending'', reviewers = [], pendingReviewers = None \<rparr>"
    by (simp add: enrich_def details thrown)
  with details thrown show ?thesis by simp
qed

lemma list_fetch_entries:
  assumes "fetch = getMyPullRequests
             \<and> q = ''/search/issues?q=author:@me+type:pr+state:open&sort=updated&order=desc''
           \<or> fetch = getReviewRequests
             \<and> q = ''/search/issues?q=review-requested:@me+type:pr+state:open&sort=updated&order=desc''"
    and "search_answer g q = Inr data"
  shows "fetch g = Inr (map (enrich g) (items data))"
  using assms by (auto simp: getMyPullRequests_def getReviewRequests_def)

lemma enrich_search_fields:
  "(enrich g issue)
     \<lparr> branchName := [],
       pr_changes := \<lparr> changes_additions = 0, changes_deletions = 0, filesChanged = 0 \<rparr>,
       checks := \<lparr> checks_status = ''unknown'', details = [] \<rparr>,
       reviews := \<lparr> reviews_status = ''pending'', reviewers = [], pendingReviewers = None \<rparr> \<rparr>
   = transformPullRequest issue None"
  by (simp add: enrich_def transformPullRequest_def split: sum.split)

text \<open>
  Claim C8, as the code has it. When the search of a list fetch (\<open>getMyPullRequests\<close> or
  \<open>getReviewRequests\<close>) succeeds, the fetch returns one entry per found item, in order,
  whatever the sub-fetches do; every entry has the search-result fields of its item. An
  item whose detail fetch throws is its unenriched form: checks
  \<open>{ status: 'unknown', details: [] }\<close> and reviews \<open>{ status: 'pending', reviewers: [] }\<close>.
  An item whose detail fetch succeeds has the branch name and the changes of the detail;
  its checks are the result of the check-status fetch, or
  \<open>{ status: 'unknown', details: [] }\<close> when that throws; its reviews are the result of
  the review-status fetch, or \<open>{ status: 'pending', reviewers: [] }\<close> when that throws.
  Each entry depends on the sub-fetches of its own item only.
\<close>

theorem batch_degrades_per_fetch:
  assumes "fetch = getMyPullRequests
             \<and> q = ''/search/issues?q=author:@me+type:pr+state:open&sort=updated&order=desc''
           \<or> fetch = getReviewRequests
             \<and> q = ''/search/issues?q=review-requested:@me+type:pr+state:open&sort=updated&order=desc''"
    and "search_answer g q = Inr data"
  shows "\<exists>prs. fetch g = Inr prs \<and> length prs = length (items data) \<and>
     (\<forall>i < length prs.
        let issue = items data ! i; pr = prs ! i;
            repo = repoFullNameOf issue; n = number issue
        in pr \<lparr> branchName := [],
                pr_changes := \<lparr> changes_additions = 0, changes_deletions = 0, filesChanged = 0 \<rparr>,
                checks := \<lparr> checks_status = ''unknown'', details = [] \<rparr>,
                reviews := \<lparr> reviews_status = ''pending'', reviewers = [],
                             pendingReviewers = None \<rparr> \<rparr>
             = transformPullRequest issue None
         \<and> (\<forall>e. getPullRequestDetails g repo n = Inl e \<longrightarrow>
                pr = transformPullRequest issue None
                \<and> checks pr = \<lparr> checks_status = ''unknown'', details = [] \<rparr>
                \<and> reviews pr = \<lparr> reviews_status = ''pending'', reviewers = [],
                                  pendingReviewers = None \<rparr>)
         \<and> (\<forall>d. getPullRequestDetails g repo n = Inr d \<longrightarrow>
                branchName pr = details_branchName d \<and> pr_changes pr = details_changes d
                \<and> (\<forall>e. getCheckStatus g repo n = Inl e \<longrightarrow>
                      checks pr = \<lparr> checks_status = ''unknown'', details = [] \<rparr>)
                \<and> (\<forall>c. getCheckStatus g repo n = Inr c \<longrightarrow> checks pr = c)
                \<and> (\<forall>e. getReviewStatus g repo n (requestedReviewers d) = Inl e \<longrightarrow>
                      reviews pr = \<lparr> reviews_status = ''pending'', reviewers = [],
                                      pendingReviewers = None \<rparr>)
                \<and> (\<forall>r. getReviewStatus g repo n (requestedReviewers d) = Inr r \<longrightarrow>
                      reviews pr = r)))"
proof -
  have entries: "fetch g = Inr (map (enrich g) (items data))"
    using assms by (rule list_fetch_entries)
  have item: "let pr = enrich g issue; repo = repoFullNameOf issue; n = number issue
        in pr \<lparr> branchName := [],
                pr_changes := \<lparr> changes_additions = 0, changes_deletions = 0, filesChanged = 0 \<rparr>,
                checks := \<lparr> checks_status = ''unknown'', details = [] \<rparr>,
                reviews := \<lparr> reviews_status = ''pending'', reviewers = [],
                             pendingReviewers = None \<rparr> \<rparr>
             = transformPullRequest issue None
         \<and> (\<forall>e. getPullRequestDetails g repo n = Inl e \<longrightarrow>
                pr = transformPullRequest issue None
                \<and> checks pr = \<lparr> checks_status = ''unknown'', details = [] \<rparr>
                \<and> reviews pr = \<lparr> reviews_status = ''pending'', reviewers = [],
                                  pendingReviewers = None \<rparr>)
         \<and> (\<forall>d. getPullRequestDetails g repo n = Inr d \<longrightarrow>
                branchName pr = details_branchName d \<and> pr_changes pr = details_changes d
                \<and> (\<forall>e. getCheckStatus g repo n = Inl e \<longrightarrow>
                      checks pr = \<lparr> checks_status = ''unknown'', details = [] \<rparr>)
                \<and> (\<forall>c. getCheckStatus g repo n = Inr c \<longrightarrow> checks pr = c)
                \<and> (\<forall>e. getReviewStatus g repo n (requestedReviewers d) = Inl e \<longrightarrow>
                      reviews pr = \<lparr> reviews_status = ''pending'', reviewers = [],
                                      pendingReviewers = None \<rparr>)
                \<and> (\<forall>r. getReviewStatus g repo n (requestedReviewers d) = Inr r \<longrightarrow>
                      reviews pr = r))" for issue
    unfolding Let_def
  proof (intro conjI allI impI)
    show "(enrich g issue)
       \<lparr> branchName := [],
         pr_changes := \<lparr> changes_additions = 0, changes_deletions = 0, filesChanged = 0 \<rparr>,
         checks := \<lparr> checks_status = ''unknown'', details = [] \<rparr>,
         reviews := \<lparr> reviews_status = ''pending'', reviewers = [], pendingReviewers = None \<rparr> \<rparr>
       = transformPullRequest issue None"
      by (rule enrich_search_fields)
  qed (simp_all add: enrich_def transformPullRequest_def)
  have unenriched: "checks (transformPullRequest issue None) =
        \<lparr> checks_status = ''unknown'', details = [] \<rparr>
      \<and> reviews (transformPullRequest issue None) =
        \<lparr> reviews_status = ''pending'', reviewers = [], pendingReviewers = None \<rparr>" for issue
    by (simp add: transformPullRequest_def)
  show ?thesis
    unfolding entries using item by (simp add: Let_def unenriched)
qed

lemma sample_enriched:
  assumes "pull_answer g ''octo/demo'' n = Inr (samplePull requested)"
  shows "enrich g (sampleIssue n) =
     (transformPullRequest (sampleIssue n) None)
       \<lparr> branchName := ''feat/JIRA-12/fix'',
         pr_changes := \<lparr> changes_additions = 10, changes_deletions = 2, filesChanged = 3 \<rparr>,
         checks := (case getCheckStatus g ''octo/demo'' n of
                      Inl e \<Rightarrow> \<lparr> checks_status = ''unknown'', details = [] \<rparr>
                    | Inr c \<Rightarrow> c),
         reviews := (case getReviewStatus g ''octo/demo'' n requested of
                       Inl e \<Rightarrow> \<lparr> reviews_status = ''pending'', reviewers = [],
                                   pendingReviewers = None \<rparr>
                     | Inr r \<Rightarrow> r) \<rparr>"
  by (simp add: enrich_def sample_repo sample_number sample_details [OF assms]
        transformPullRequest_def)

theorem batch_degrades_per_fetch_witness:
  "map_sum id
     (map (\<lambda>pr. (pr_number pr, branchName pr, checks_status (checks pr),
                  reviews_status (reviews pr))))
     (getMyPullRequests
        (failingPull 7
           (sampleGithub [sampleIssue 7, sampleIssue 8] [] []
              [sampleReview ''bob'' ''APPROVED'']))) =
   Inr [(7, [], ''unknown'', ''pending''), (8, ''feat/JIRA-12/fix'', ''unknown'', ''approved'')]"
proof -
  let ?g = "failingPull 7
           (sampleGithub [sampleIssue 7, sampleIssue 8] [] []
              [sampleReview ''bob'' ''APPROVED''])"
  have search: "search_answer ?g ''/search/issues?q=author:@me+type:pr+state:open&sort=updated&order=desc'' =
      Inr \<lparr> items = [sampleIssue 7, sampleIssue 8] \<rparr>"
    by (simp add: failingPull_def sampleGithub_def)
  from batch_degrades_per_fetch [OF disjI1 [OF conjI [OF refl refl]] search]
  obtain prs where prs: "getMyPullRequests ?g = Inr prs" and two: "length prs = 2"
    by auto
  have failed: "getPullRequestDetails ?g ''octo/demo'' 7 = Inl (Error ''HTTP 502'')"
    by (simp add: getPullRequestDetails_def failingPull_def)
  have first: "enrich ?g (sampleIssue 7) = transformPullRequest (sampleIssue 7) None"
    by (simp add: enrich_def sample_repo sample_number failed)
  have answered: "pull_answer ?g ''octo/demo'' 8 = Inr (samplePull [])"
    by (simp add: failingPull_def sampleGithub_def)
  have no_checks: "getCheckStatus ?g ''octo/demo'' 8 =
      Inr \<lparr> checks_status = ''unknown'', details = [] \<rparr>"
    by (simp add: getCheckStatus_def failingPull_def sampleGithub_def samplePull_def
          headSha_def reduceChecks_def)
  have approved: "getReviewStatus ?g ''octo/demo'' 8 [] =
      Inr \<lparr> reviews_status = ''approved'',
            reviewers = [\<lparr> login = ''bob'', avatarUrl = ''https://avatars.test/bob'',
                           state = ''APPROVED'' \<rparr>],
            pendingReviewers = Some [] \<rparr>"
    by (simp add: getReviewStatus_def failingPull_def sampleGithub_def sampleReview_def
          sampleUser_def reviewStatusOf_def Let_def)
  have "getMyPullRequests ?g = Inr [enrich ?g (sampleIssue 7), enrich ?g (sampleIssue 8)]"
    using search by (simp add: getMyPullRequests_def)
  with prs have "prs = [enrich ?g (sampleIssue 7), enrich ?g (sampleIssue 8)]"
    by simp
  then have "map (\<lambda>pr. (pr_number pr, branchName pr, checks_status (checks pr),
                        reviews_status (reviews pr))) prs =
      [(7, [], ''unknown'', ''pending''), (8, ''feat/JIRA-12/fix'', ''unknown'', ''approved'')]"
    by (simp add: first sample_enriched [OF answered] no_checks approved
          transformPullRequest_def sample_number)
  with prs show ?thesis by simp
qed

text \<open>
  The claim as stated fails: the check-status fetch of the only item throws, and the
  item is not degraded to its unenriched form. It keeps the branch name of the detail and
  the reviews of the review-status fetch (approved, not pending).
\<close>

theorem failed_checks_keep_other_enrichment:
  "getCheckStatus
     (failingCheckRuns (sampleGithub [sampleIssue 7] [] [] [sampleReview ''bob'' ''APPROVED'']))
     ''octo/demo'' 7 = Inl (Error ''HTTP 502'')
   \<and> map_sum id
       (map (\<lambda>pr. (pr_number pr, branchName pr, checks_status (checks pr),
                    reviews_status (reviews pr))))
       (getMyPullRequests
          (failingCheckRuns
             (sampleGithub [sampleIssue 7] [] [] [sampleReview ''bob'' ''APPROVED'']))) =
     Inr [(7, ''feat/JIRA-12/fix'', ''unknown'', ''approved'')]
   \<and> getMyPullRequests
       (failingCheckRuns
          (sampleGithub [sampleIssue 7] [] [] [sampleReview ''bob'' ''APPROVED''])) \<noteq>
     Inr [transformPullRequest (sampleIssue 7) None]"
proof -
  let ?g = "failingCheckRuns
              (sampleGithub [sampleIssue 7] [] [] [sampleReview ''bob'' ''APPROVED''])"
  have answered: "pull_answer ?g ''octo/demo'' 7 = Inr (samplePull [])"
    by (simp add: failingCheckRuns_def sampleGithub_def)
  have thrown: "getCheckStatus ?g ''octo/demo'' 7 = Inl (Error ''HTTP 502'')"
    by (simp add: getCheckStatus_def failingCheckRuns_def sampleGithub_def samplePull_def
          headSha_def)
  have approved: "getReviewStatus ?g ''octo/demo'' 7 [] =
      Inr \<lparr> reviews_status = ''approved'',
            reviewers = [\<lparr> login = ''bob'', avatarUrl = ''https://avatars.test/bob'',
                           state = ''APPROVED'' \<rparr>],
            pendingReviewers = Some [] \<rparr>"
    by (simp add: getReviewStatus_def failingCheckRuns_def sampleGithub_def sampleReview_def
          sampleUser_def reviewStatusOf_def Let_def)
  have fetched: "getMyPullRequests ?g = Inr [enrich ?g (sampleIssue 7)]"
    by (simp add: getMyPullRequests_def failingCheckRuns_def sampleGithub_def)
  have branch: "branchName (enrich ?g (sampleIssue 7)) = ''feat/JIRA-12/fix''"
    by (simp add: sample_enriched [OF answered])
  have "branchName (transformPullRequest (sampleIssue 7) None) = []"
    by (simp add: transformPullRequest_def)
  with branch have differs: "enrich ?g (sampleIssue 7) \<noteq> transformPullRequest (sampleIssue 7) None"
    by auto
  have shown: "map_sum id
       (map (\<lambda>pr. (pr_number pr, branchName pr, checks_status (checks pr),
                    reviews_status (reviews pr))))
       (getMyPullRequests ?g) = Inr [(7, ''feat/JIRA-12/fix'', ''unknown'', ''approved'')]"
    by (simp add: fetched sample_enriched [OF answered] thrown approved
          transformPullRequest_def sample_number)
  from thrown shown differs show ?thesis by (simp add: fetched)
qed

section \<open>Properties of the status dot\<close>

text \<open>
  Claim C5, as the code has it. For a check status that \<open>getCheckStatus\<close> can compute
  (success, failure, pending or unknown) and any review status, the dot is green (healthy)
  exactly when the check status is success or unknown and the review status is approved;
  it is red (blocked) exactly when the check status is failure or pending and the review
  status is not approved; in every other case it is yellow (attention). So pending checks
  with a review that is not approved give red, not yellow.
\<close>

theorem status_dot_cases:
  assumes "c \<in> {''success'', ''failure'', ''pending'', ''unknown''}"
  shows "(statusDot (Some c) (Some r) = status_green \<longleftrightarrow>
            c \<in> {''success'', ''unknown''} \<and> r = ''approved'')
       \<and> (statusDot (Some c) (Some r) = status_red \<longleftrightarrow>
            c \<in> {''failure'', ''pending''} \<and> r \<noteq> ''approved'')
       \<and> (statusDot (Some c) (Some r) = status_yellow \<longleftrightarrow>
            \<not> (c \<in> {''success'', ''unknown''} \<and> r = ''approved'')
            \<and> \<not> (c \<in> {''failure'', ''pending''} \<and> r \<noteq> ''approved''))"
  using assms by (auto simp: statusDot_def Let_def)

theorem status_dot_cases_witness:
  "statusDot (Some ''success'') (Some ''approved'') = status_green
   \<and> statusDot (Some ''failure'') (Some ''changes_requested'') = status_red
   \<and> statusDot (Some ''pending'') (Some ''approved'') = status_yellow"
  using status_dot_cases [of "''success''" "''approved''"]
    status_dot_cases [of "''failure''" "''changes_requested''"]
    status_dot_cases [of "''pending''" "''approved''"]
  by simp

text \<open>
  The claim as stated fails: a pull request with pending checks and a pending (not
  approved) review has the red dot, not the yellow one.
\<close>

theorem pending_checks_unapproved_is_red:
  "statusDot (Some ''pending'') (Some ''pending'') = status_red
   \<and> statusDot (Some ''pending'') (Some ''pending'') \<noteq> status_yellow"
  by (simp add: statusDot_def)

section \<open>Properties of sanitizeJiraUrl\<close>






section \<open>Properties of the service worker\<close>

lemma fetchAll_both:
  "fetchAllPullRequests race (Some p) g = Inr data \<longleftrightarrow>
     getMyPullRequests g = Inr (myPRs data) \<and> getReviewRequests g = Inr (reviewRequests data)"
  by (cases data)
     (auto simp: fetchAllPullRequests_def managerGetMyPullRequests_def
        managerGetReviewRequests_def split: sum.splits)

lemma advance_done: "length (suspended w) = i \<Longrightarrow> advance out i w = w"
  by (simp add: advance_def)

lemma advance_init:
  assumes "suspended w = xs @ [AwaitInitializeProvider]"
  shows "advance out (length xs) w =
     (case getProvider_rejects out of
        Some e \<Rightarrow> w \<lparr> suspended := xs, consoleErrors := consoleErrors w @ [e] \<rparr>
      | None \<Rightarrow>
          (case storage_provider w of
             None \<Rightarrow> w \<lparr> suspended := xs \<rparr>
           | Some cfg \<Rightarrow>
               (case createProvider (config_type cfg) (config_token cfg) (config_baseUrl cfg) of
                  Inl e \<Rightarrow> w \<lparr> suspended := xs, consoleErrors := consoleErrors w @ [e] \<rparr>
                | Inr p \<Rightarrow> w \<lparr> suspended := xs @ [AwaitFetchAll p],
                                 manager_provider := Some p,
                                 fetchAllCalls := Suc (fetchAllCalls w) \<rparr>)))"
  using assms
  by (simp add: advance_def nextEvent_def caught_def returned_def resume_def
        split: option.split sum.split)

lemma advance_fetch:
  assumes "suspended w = xs @ [AwaitFetchAll p]"
  shows "advance out (length xs) w =
     (case fetchAllPullRequests (listRace out) (Some p) (answers out) of
        Inl e \<Rightarrow> w \<lparr> suspended := xs, consoleErrors := consoleErrors w @ [e] \<rparr>
      | Inr data \<Rightarrow>
          w \<lparr> suspended := xs @
                [AwaitSetPullRequests data
                   \<lparr> snapshot_myPRs = myPRs data,
                     snapshot_reviewRequests = reviewRequests data,
                     lastFetched = clock out \<rparr>] \<rparr>)"
  using assms
  by (simp add: advance_def nextEvent_def caught_def returned_def resume_def
        split: option.split sum.split)

lemma advance_set:
  assumes "suspended w = xs @ [AwaitSetPullRequests data written]"
  shows "advance out (length xs) w =
     (case setPullRequests_rejects out of
        Some e \<Rightarrow> w \<lparr> suspended := xs, consoleErrors := consoleErrors w @ [e] \<rparr>
      | None \<Rightarrow> w \<lparr> suspended := xs @ [AwaitBadge data],
                      storage_pullRequests := Some written \<rparr>)"
  using assms
  by (simp add: advance_def nextEvent_def caught_def returned_def resume_def
        split: option.split sum.split)

lemma advance_badge:
  assumes "suspended w = xs @ [AwaitBadge data]"
  shows "advance out (length xs) w =
     (case getSettings_rejects out of
        Some e \<Rightarrow> w \<lparr> suspended := xs, consoleErrors := consoleErrors w @ [e] \<rparr>
      | None \<Rightarrow> w \<lparr> suspended := xs,
                      badgeText := badgeFromSettings (storage_pinnedTab w) data \<rparr>)"
  using assms
  by (simp add: advance_def nextEvent_def caught_def returned_def resume_def
        split: option.split sum.split)

lemma fromFetch_suspended: "suspended (fromFetch out p w) = suspended w"
  by (simp add: fromFetch_def split: sum.split option.split)

lemma three_rounds:
  assumes "suspended w = xs @ [AwaitFetchAll p]"
  shows "advance out (length xs) (advance out (length xs) (advance out (length xs) w)) =
           fromFetch out p (w \<lparr> suspended := xs \<rparr>)"
proof (cases "fetchAllPullRequests (listRace out) (Some p) (answers out)")
  case (Inl e)
  let ?w1 = "w \<lparr> suspended := xs, consoleErrors := consoleErrors w @ [e] \<rparr>"
  have 1: "advance out (length xs) w = ?w1"
    by (subst advance_fetch [OF assms]) (simp add: Inl)
  have 2: "advance out (length xs) ?w1 = ?w1"
    by (rule advance_done) simp
  have "?w1 = fromFetch out p (w \<lparr> suspended := xs \<rparr>)"
    by (simp add: fromFetch_def Inl)
  then show ?thesis unfolding 1 2 .
next
  case (Inr data)
  let ?written = "\<lparr> snapshot_myPRs = myPRs data, snapshot_reviewRequests = reviewRequests data,
                     lastFetched = clock out \<rparr>"
  let ?w1 = "w \<lparr> suspended := xs @ [AwaitSetPullRequests data ?written] \<rparr>"
  have 1: "advance out (length xs) w = ?w1"
    by (subst advance_fetch [OF assms]) (simp add: Inr)
  have s1: "suspended ?w1 = xs @ [AwaitSetPullRequests data ?written]" by simp
  show ?thesis
  proof (cases "setPullRequests_rejects out")
    case (Some e)
    let ?w2 = "?w1 \<lparr> suspended := xs, consoleErrors := consoleErrors ?w1 @ [e] \<rparr>"
    have 2: "advance out (length xs) ?w1 = ?w2"
      by (subst advance_set [OF s1]) (simp add: Some)
    have 3: "advance out (length xs) ?w2 = ?w2"
      by (rule advance_done) simp
    have "?w2 = fromFetch out p (w \<lparr> suspended := xs \<rparr>)"
      by (simp add: fromFetch_def Inr Some)
    then show ?thesis unfolding 1 2 3 .
  next
    case None
    let ?w2 = "?w1 \<lparr> suspended := xs @ [AwaitBadge data], storage_pullRequests := Some ?written \<rparr>"
    have 2: "advance out (length xs) ?w1 = ?w2"
      by (subst advance_set [OF s1]) (simp add: None)
    have s2: "suspended ?w2 = xs @ [AwaitBadge data]" by simp
    have 3: "advance out (length xs) ?w2 = fromFetch out p (w \<lparr> suspended := xs \<rparr>)"
      by (subst advance_badge [OF s2]) (simp add: fromFetch_def Inr None split: option.split)
    show ?thesis unfolding 1 2 3 ..
  qed
qed

lemma four_rounds:
  assumes "suspended w = xs @ [AwaitFetchAll p]"
  shows "advance out (length xs)
           (advance out (length xs) (advance out (length xs) (advance out (length xs) w))) =
         fromFetch out p (w \<lparr> suspended := xs \<rparr>)"
proof -
  have "advance out (length xs) (fromFetch out p (w \<lparr> suspended := xs \<rparr>)) =
          fromFetch out p (w \<lparr> suspended := xs \<rparr>)"
    by (rule advance_done) (simp add: fromFetch_suspended)
  then show ?thesis unfolding three_rounds [OF assms] .
qed

lemma runCycle_with_provider:
  assumes "manager_provider w = Some p"
  shows "runCycle out w = fromFetch out p (w \<lparr> fetchAllCalls := Suc (fetchAllCalls w) \<rparr>)"
proof -
  let ?w0 = "w \<lparr> suspended := suspended w @ [AwaitFetchAll p],
                  fetchAllCalls := Suc (fetchAllCalls w) \<rparr>"
  have s0: "suspended ?w0 = suspended w @ [AwaitFetchAll p]" by simp
  have start: "fetchAndCachePRs w = ?w0"
    using assms by (simp add: fetchAndCachePRs_def)
  have "?w0 \<lparr> suspended := suspended w \<rparr> = w \<lparr> fetchAllCalls := Suc (fetchAllCalls w) \<rparr>"
    by simp
  then show ?thesis
    unfolding runCycle_def Let_def start four_rounds [OF s0] by (rule arg_cong)
qed

lemma runCycle_without_provider:
  assumes "manager_provider w = None"
  shows "runCycle out w =
     (case getProvider_rejects out of
        Some e \<Rightarrow> w \<lparr> consoleErrors := consoleErrors w @ [e] \<rparr>
      | None \<Rightarrow>
          (case storage_provider w of
             None \<Rightarrow> w
           | Some cfg \<Rightarrow>
               (case createProvider (config_type cfg) (config_token cfg) (config_baseUrl cfg) of
                  Inl e \<Rightarrow> w \<lparr> consoleErrors := consoleErrors w @ [e] \<rparr>
                | Inr p \<Rightarrow>
                    fromFetch out p
                      (w \<lparr> manager_provider := Some p,
                           fetchAllCalls := Suc (fetchAllCalls w) \<rparr>))))"
proof -
  let ?n = "length (suspended w)"
  let ?w0 = "w \<lparr> suspended := suspended w @ [AwaitInitializeProvider] \<rparr>"
  have s0: "suspended ?w0 = suspended w @ [AwaitInitializeProvider]" by simp
  have start: "fetchAndCachePRs w = ?w0"
    using assms by (simp add: fetchAndCachePRs_def)
  have ended: "advance out ?n (advance out ?n (advance out ?n (advance out ?n ?w0))) = w'"
    if "advance out ?n ?w0 = w'" and "suspended w' = suspended w" for w'
  proof -
    have "advance out ?n w' = w'" by (rule advance_done) (simp add: that(2))
    then show ?thesis by (simp only: that(1))
  qed
  show ?thesis
  proof (cases "getProvider_rejects out")
    case (Some e)
    have "advance out ?n ?w0 = w \<lparr> consoleErrors := consoleErrors w @ [e] \<rparr>"
      by (subst advance_init [OF s0]) (simp add: Some)
    from ended [OF this] show ?thesis
      unfolding runCycle_def Let_def start by (simp add: Some)
  next
    case None
    note no_reject = None
    show ?thesis
    proof (cases "storage_provider w")
      case None
      have "advance out ?n ?w0 = w"
        by (subst advance_init [OF s0]) (simp add: no_reject None)
      from ended [OF this] show ?thesis
        unfolding runCycle_def Let_def start by (simp add: no_reject None)
    next
      case (Some cfg)
      show ?thesis
      proof (cases "createProvider (config_type cfg) (config_token cfg) (config_baseUrl cfg)")
        case (Inl e)
        have "advance out ?n ?w0 = w \<lparr> consoleErrors := consoleErrors w @ [e] \<rparr>"
          by (subst advance_init [OF s0]) (simp add: no_reject Some Inl)
        from ended [OF this] show ?thesis
          unfolding runCycle_def Let_def start by (simp add: no_reject Some Inl)
      next
        case (Inr p)
        let ?w1 = "?w0 \<lparr> suspended := suspended w @ [AwaitFetchAll p],
                          manager_provider := Some p,
                          fetchAllCalls := Suc (fetchAllCalls w) \<rparr>"
        have 1: "advance out ?n ?w0 = ?w1"
          by (subst advance_init [OF s0]) (simp add: no_reject Some Inr)
        have s1: "suspended ?w1 = suspended w @ [AwaitFetchAll p]" by simp
        have "?w1 \<lparr> suspended := suspended w \<rparr> =
            w \<lparr> manager_provider := Some p, fetchAllCalls := Suc (fetchAllCalls w) \<rparr>"
          by simp
        then have "advance out ?n (advance out ?n (advance out ?n ?w1)) =
            fromFetch out p
              (w \<lparr> manager_provider := Some p, fetchAllCalls := Suc (fetchAllCalls w) \<rparr>)"
          unfolding three_rounds [OF s1] by (rule arg_cong)
        then show ?thesis
          unfolding runCycle_def Let_def start 1 by (simp add: no_reject Some Inr)
      qed
    qed
  qed
qed

lemma runCycle_ready:
  assumes "providerFor out w = Some (Inr p)"
  shows "\<exists>w0. runCycle out w = fromFetch out p w0
            \<and> storage_pullRequests w0 = storage_pullRequests w
            \<and> consoleErrors w0 = consoleErrors w"
proof (cases "manager_provider w")
  case None
  with assms show ?thesis
    by (auto simp: providerFor_def runCycle_without_provider split: option.splits)
next
  case (Some q)
  with assms have "q = p" by (simp add: providerFor_def)
  with Some show ?thesis
    by (auto simp: runCycle_with_provider)
qed

lemma runCycle_init_failed:
  assumes "providerFor out w = Some (Inl e)"
  shows "runCycle out w = w \<lparr> consoleErrors := consoleErrors w @ [e] \<rparr>"
  using assms
  by (auto simp: providerFor_def runCycle_without_provider split: option.splits)

lemma runCycle_skipped:
  assumes "providerFor out w = None"
  shows "runCycle out w = w"
  using assms
  by (auto simp: providerFor_def runCycle_without_provider split: option.splits)

text \<open>
  Claim C6, as the code has it. A polling cycle that fails while it initialises the
  provider, while it fetches, or in \<open>storage.setPullRequests\<close> logs its error and
  leaves the stored snapshot as it was. A cycle changes the stored snapshot only when both
  list fetches succeeded and \<open>storage.setPullRequests\<close> did not reject, and then the
  snapshot is the two fetched lists with the time of the fetch: it is never cleared and
  never written in part.
\<close>

theorem failed_cycle_keeps_snapshot:
  "(\<forall>e. providerFor out w = Some (Inl e) \<longrightarrow>
        storage_pullRequests (runCycle out w) = storage_pullRequests w
        \<and> consoleErrors (runCycle out w) = consoleErrors w @ [e])
   \<and> (\<forall>p e. providerFor out w = Some (Inr p)
          \<and> fetchAllPullRequests (listRace out) (Some p) (answers out) = Inl e \<longrightarrow>
        storage_pullRequests (runCycle out w) = storage_pullRequests w
        \<and> consoleErrors (runCycle out w) = consoleErrors w @ [e])
   \<and> (\<forall>p data e. providerFor out w = Some (Inr p)
          \<and> fetchAllPullRequests (listRace out) (Some p) (answers out) = Inr data
          \<and> setPullRequests_rejects out = Some e \<longrightarrow>
        storage_pullRequests (runCycle out w) = storage_pullRequests w
        \<and> consoleErrors (runCycle out w) = consoleErrors w @ [e])
   \<and> (storage_pullRequests (runCycle out w) \<noteq> storage_pullRequests w \<longrightarrow>
        (\<exists>mine requests.
            getMyPullRequests (answers out) = Inr mine
          \<and> getReviewRequests (answers out) = Inr requests
          \<and> setPullRequests_rejects out = None
          \<and> storage_pullRequests (runCycle out w) =
              Some \<lparr> snapshot_myPRs = mine, snapshot_reviewRequests = requests,
                     lastFetched = clock out \<rparr>))"
proof (intro conjI allI impI)
  fix e assume "providerFor out w = Some (Inl e)"
  then have "runCycle out w = w \<lparr> consoleErrors := consoleErrors w @ [e] \<rparr>"
    by (rule runCycle_init_failed)
  then show "storage_pullRequests (runCycle out w) = storage_pullRequests w"
    and "consoleErrors (runCycle out w) = consoleErrors w @ [e]"
    by simp_all
next
  fix p e
  assume a: "providerFor out w = Some (Inr p)
          \<and> fetchAllPullRequests (listRace out) (Some p) (answers out) = Inl e"
  then obtain w0 where "runCycle out w = fromFetch out p w0"
    "storage_pullRequests w0 = storage_pullRequests w" "consoleErrors w0 = consoleErrors w"
    using runCycle_ready by blast
  with a show "storage_pullRequests (runCycle out w) = storage_pullRequests w"
    and "consoleErrors (runCycle out w) = consoleErrors w @ [e]"
    by (simp_all add: fromFetch_def)
next
  fix p data e
  assume a: "providerFor out w = Some (Inr p)
          \<and> fetchAllPullRequests (listRace out) (Some p) (answers out) = Inr data
          \<and> setPullRequests_rejects out = Some e"
  then obtain w0 where "runCycle out w = fromFetch out p w0"
    "storage_pullRequests w0 = storage_pullRequests w" "consoleErrors w0 = consoleErrors w"
    using runCycle_ready by blast
  with a show "storage_pullRequests (runCycle out w) = storage_pullRequests w"
    and "consoleErrors (runCycle out w) = consoleErrors w @ [e]"
    by (simp_all add: fromFetch_def)
next
  assume changed: "storage_pullRequests (runCycle out w) \<noteq> storage_pullRequests w"
  show "\<exists>mine requests.
            getMyPullRequests (answers out) = Inr mine
          \<and> getReviewRequests (answers out) = Inr requests
          \<and> setPullRequests_rejects out = None
          \<and> storage_pullRequests (runCycle out w) =
              Some \<lparr> snapshot_myPRs = mine, snapshot_reviewRequests = requests,
                     lastFetched = clock out \<rparr>"
  proof (cases "providerFor out w")
    case None
    with changed show ?thesis by (simp add: runCycle_skipped)
  next
    case (Some r)
    show ?thesis
    proof (cases r)
      case (Inl e)
      with Some changed show ?thesis by (simp add: runCycle_init_failed)
    next
      case (Inr p)
      with Some obtain w0 where w0: "runCycle out w = fromFetch out p w0"
        "storage_pullRequests w0 = storage_pullRequests w"
        using runCycle_ready by blast
      show ?thesis
      proof (cases "fetchAllPullRequests (listRace out) (Some p) (answers out)")
        case (Inl e)
        with changed w0 show ?thesis by (simp add: fromFetch_def)
      next
        case (Inr data)
        then have both: "getMyPullRequests (answers out) = Inr (myPRs data)"
          "getReviewRequests (answers out) = Inr (reviewRequests data)"
          by (simp_all add: fetchAll_both)
        show ?thesis
        proof (cases "setPullRequests_rejects out")
          case (Some e)
          with changed w0 Inr show ?thesis by (simp add: fromFetch_def)
        next
          case None
          with w0 Inr have "storage_pullRequests (runCycle out w) =
              Some \<lparr> snapshot_myPRs = myPRs data, snapshot_reviewRequests = reviewRequests data,
                     lastFetched = clock out \<rparr>"
            by (simp add: fromFetch_def split: option.split)
          with both None show ?thesis by blast
        qed
      qed
    qed
  qed
qed

theorem failed_cycle_keeps_snapshot_witness:
  "storage_pullRequests
     (runCycle (sampleOutcomes \<lparr> getProvider_rejects := Some (Error ''no storage'') \<rparr>)
        (sampleWorker \<lparr> manager_provider := None \<rparr>)) = storage_pullRequests sampleWorker
   \<and> consoleErrors
       (runCycle (sampleOutcomes \<lparr> getProvider_rejects := Some (Error ''no storage'') \<rparr>)
          (sampleWorker \<lparr> manager_provider := None \<rparr>)) = [Error ''no storage'']
   \<and> storage_pullRequests
       (runCycle (sampleOutcomes \<lparr> answers := failingSearch (sampleGithub [] [] [] []) \<rparr>)
          sampleWorker) = storage_pullRequests sampleWorker
   \<and> consoleErrors
       (runCycle (sampleOutcomes \<lparr> answers := failingSearch (sampleGithub [] [] [] []) \<rparr>)
          sampleWorker) = [Error ''HTTP 500'']
   \<and> storage_pullRequests
       (runCycle (sampleOutcomes \<lparr> setPullRequests_rejects := Some (Error ''QUOTA_BYTES'') \<rparr>)
          sampleWorker) = storage_pullRequests sampleWorker
   \<and> consoleErrors
       (runCycle (sampleOutcomes \<lparr> setPullRequests_rejects := Some (Error ''QUOTA_BYTES'') \<rparr>)
          sampleWorker) = [Error ''QUOTA_BYTES'']
   \<and> storage_pullRequests (runCycle sampleOutcomes sampleWorker) =
       Some \<lparr> snapshot_myPRs = [], snapshot_reviewRequests = [], lastFetched = 2000 \<rparr>"
proof -
  let ?w = "sampleWorker \<lparr> manager_provider := None \<rparr>"
  let ?init = "sampleOutcomes \<lparr> getProvider_rejects := Some (Error ''no storage'') \<rparr>"
  let ?fetch = "sampleOutcomes \<lparr> answers := failingSearch (sampleGithub [] [] [] []) \<rparr>"
  let ?persist = "sampleOutcomes \<lparr> setPullRequests_rejects := Some (Error ''QUOTA_BYTES'') \<rparr>"
  have same: "storage_pullRequests ?w = storage_pullRequests sampleWorker"
    and none: "consoleErrors ?w = []" "consoleErrors sampleWorker = []"
    by (simp_all add: sampleWorker_def)
  have provider: "manager_provider sampleWorker = Some sampleProvider"
    by (simp add: sampleWorker_def)
  have ready: "providerFor out sampleWorker = Some (Inr sampleProvider)" for out
    by (simp add: providerFor_def sampleWorker_def)
  have fetched: "fetchAllPullRequests race (Some sampleProvider) (sampleGithub [] [] [] []) =
      Inr \<lparr> myPRs = [], reviewRequests = [] \<rparr>" for race
    by (simp add: fetchAllPullRequests_def managerGetMyPullRequests_def
          managerGetReviewRequests_def getMyPullRequests_def getReviewRequests_def
          sampleGithub_def)
  have "providerFor ?init ?w = Some (Inl (Error ''no storage''))"
    by (simp add: providerFor_def sampleWorker_def)
  with failed_cycle_keeps_snapshot [of ?init ?w]
  have 1: "storage_pullRequests (runCycle ?init ?w) = storage_pullRequests sampleWorker"
    "consoleErrors (runCycle ?init ?w) = [Error ''no storage'']"
    by (simp_all add: same none)
  have "fetchAllPullRequests (listRace ?fetch) (Some sampleProvider) (answers ?fetch) =
      Inl (Error ''HTTP 500'')"
    by (simp add: fetchAllPullRequests_def managerGetMyPullRequests_def
          managerGetReviewRequests_def getMyPullRequests_def getReviewRequests_def
          failingSearch_def sampleOutcomes_def)
  with failed_cycle_keeps_snapshot [of ?fetch sampleWorker] ready [of ?fetch]
  have 2: "storage_pullRequests (runCycle ?fetch sampleWorker) = storage_pullRequests sampleWorker"
    "consoleErrors (runCycle ?fetch sampleWorker) = [Error ''HTTP 500'']"
    by (simp_all add: none)
  have "fetchAllPullRequests (listRace ?persist) (Some sampleProvider) (answers ?persist) =
      Inr \<lparr> myPRs = [], reviewRequests = [] \<rparr>"
    "setPullRequests_rejects ?persist = Some (Error ''QUOTA_BYTES'')"
    by (simp_all add: fetched sampleOutcomes_def)
  with failed_cycle_keeps_snapshot [of ?persist sampleWorker] ready [of ?persist]
  have 3: "storage_pullRequests (runCycle ?persist sampleWorker) =
      storage_pullRequests sampleWorker"
    "consoleErrors (runCycle ?persist sampleWorker) = [Error ''QUOTA_BYTES'']"
    by (simp_all add: none)
  have lists: "getMyPullRequests (answers sampleOutcomes) = Inr []"
    "getReviewRequests (answers sampleOutcomes) = Inr []"
    by (simp_all add: getMyPullRequests_def getReviewRequests_def sampleOutcomes_def
          sampleGithub_def)
  have "storage_pullRequests (runCycle sampleOutcomes sampleWorker) \<noteq>
      storage_pullRequests sampleWorker"
    unfolding runCycle_with_provider [OF provider] fromFetch_def
    by (simp add: fetched sampleOutcomes_def sampleWorker_def)
  with failed_cycle_keeps_snapshot [of sampleOutcomes sampleWorker]
  obtain mine requests where
    "getMyPullRequests (answers sampleOutcomes) = Inr mine"
    "getReviewRequests (answers sampleOutcomes) = Inr requests"
    "storage_pullRequests (runCycle sampleOutcomes sampleWorker) =
       Some \<lparr> snapshot_myPRs = mine, snapshot_reviewRequests = requests,
              lastFetched = clock sampleOutcomes \<rparr>"
    by blast
  moreover have "clock sampleOutcomes = 2000"
    by (simp add: sampleOutcomes_def)
  ultimately
  have 4: "storage_pullRequests (runCycle sampleOutcomes sampleWorker) =
      Some \<lparr> snapshot_myPRs = [], snapshot_reviewRequests = [], lastFetched = 2000 \<rparr>"
    by (simp add: lists)
  from 1 2 3 4 show ?thesis by (intro conjI)
qed

text \<open>
  The claim as stated fails: both list fetches and the write succeed, then
  \<open>storage.getSettings\<close> rejects inside \<open>updateBadgeFromSettings\<close>. The cycle ends
  in the \<open>catch\<close> block with that error, and the stored snapshot is no longer the one
  of the earlier cycle.
\<close>

theorem failed_badge_update_after_write:
  "consoleErrors
     (runCycle (sampleOutcomes \<lparr> getSettings_rejects := Some (Error ''context invalidated'') \<rparr>)
        sampleWorker) = [Error ''context invalidated'']
   \<and> storage_pullRequests
       (runCycle (sampleOutcomes \<lparr> getSettings_rejects := Some (Error ''context invalidated'') \<rparr>)
          sampleWorker) =
     Some \<lparr> snapshot_myPRs = [], snapshot_reviewRequests = [], lastFetched = 2000 \<rparr>
   \<and> storage_pullRequests
       (runCycle (sampleOutcomes \<lparr> getSettings_rejects := Some (Error ''context invalidated'') \<rparr>)
          sampleWorker) \<noteq> storage_pullRequests sampleWorker"
proof -
  let ?out = "sampleOutcomes \<lparr> getSettings_rejects := Some (Error ''context invalidated'') \<rparr>"
  have provider: "manager_provider sampleWorker = Some sampleProvider"
    by (simp add: sampleWorker_def)
  have fetched: "fetchAllPullRequests (listRace ?out) (Some sampleProvider) (answers ?out) =
      Inr \<lparr> myPRs = [], reviewRequests = [] \<rparr>"
    by (simp add: fetchAllPullRequests_def managerGetMyPullRequests_def
          managerGetReviewRequests_def getMyPullRequests_def getReviewRequests_def
          sampleOutcomes_def sampleGithub_def)
  have settings: "setPullRequests_rejects ?out = None"
    "getSettings_rejects ?out = Some (Error ''context invalidated'')" "clock ?out = 2000"
    by (simp_all add: sampleOutcomes_def)
  have "runCycle ?out sampleWorker =
      sampleWorker
        \<lparr> fetchAllCalls := Suc (fetchAllCalls sampleWorker),
          storage_pullRequests :=
            Some \<lparr> snapshot_myPRs = [], snapshot_reviewRequests = [], lastFetched = 2000 \<rparr>,
          consoleErrors := consoleErrors sampleWorker @ [Error ''context invalidated''] \<rparr>"
    unfolding runCycle_with_provider [OF provider] fromFetch_def fetched settings by simp
  then show ?thesis by (simp add: sampleWorker_def)
qed

text \<open>
  Claim C3, as the code has it. In every state of the worker, with or without invocations
  of \<open>fetchAndCachePRs\<close> in flight, the alarm \<open>pr-poll\<close> and the message
  \<open>REFRESH_PRS\<close> are not dropped: each starts one more invocation beside those in
  flight. With a provider set it calls \<open>fetchAllPullRequests\<close> at once; without one
  it starts with \<open>initializeProvider\<close>.
\<close>

theorem trigger_starts_cycle_beside_others:
  assumes "trigger = AlarmFired ALARM_NAME \<or> trigger = RefreshMessage"
  shows "(\<forall>p. manager_provider w = Some p \<longrightarrow>
            step trigger w =
              Some (w \<lparr> suspended := suspended w @ [AwaitFetchAll p],
                        fetchAllCalls := Suc (fetchAllCalls w) \<rparr>))
       \<and> (manager_provider w = None \<longrightarrow>
            step trigger w = Some (w \<lparr> suspended := suspended w @ [AwaitInitializeProvider] \<rparr>))"
  using assms by (auto simp: fetchAndCachePRs_def)

theorem trigger_starts_cycle_beside_others_witness:
  "step RefreshMessage
     (sampleWorker \<lparr> suspended := [AwaitFetchAll sampleProvider], fetchAllCalls := 1 \<rparr>) =
   Some (sampleWorker \<lparr> suspended := [AwaitFetchAll sampleProvider, AwaitFetchAll sampleProvider],
                        fetchAllCalls := 2 \<rparr>)
   \<and> step (AlarmFired ALARM_NAME)
       (sampleWorker \<lparr> manager_provider := None, suspended := [AwaitInitializeProvider] \<rparr>) =
     Some (sampleWorker \<lparr> manager_provider := None,
                          suspended := [AwaitInitializeProvider, AwaitInitializeProvider] \<rparr>)"
proof -
  let ?w = "sampleWorker \<lparr> suspended := [AwaitFetchAll sampleProvider], fetchAllCalls := 1 \<rparr>"
  let ?v = "sampleWorker \<lparr> manager_provider := None, suspended := [AwaitInitializeProvider] \<rparr>"
  have "manager_provider ?w = Some sampleProvider"
    by (simp add: sampleWorker_def)
  with trigger_starts_cycle_beside_others [of RefreshMessage ?w]
  have "step RefreshMessage ?w =
      Some (?w \<lparr> suspended := suspended ?w @ [AwaitFetchAll sampleProvider],
                 fetchAllCalls := Suc (fetchAllCalls ?w) \<rparr>)"
    by blast
  then have 1: "step RefreshMessage ?w =
      Some (sampleWorker
              \<lparr> suspended := [AwaitFetchAll sampleProvider, AwaitFetchAll sampleProvider],
                fetchAllCalls := 2 \<rparr>)"
    by simp
  have "manager_provider ?v = None"
    by simp
  with trigger_starts_cycle_beside_others [of "AlarmFired ALARM_NAME" ?v]
  have "step (AlarmFired ALARM_NAME) ?v =
      Some (?v \<lparr> suspended := suspended ?v @ [AwaitInitializeProvider] \<rparr>)"
    by blast
  then have 2: "step (AlarmFired ALARM_NAME) ?v =
      Some (sampleWorker \<lparr> manager_provider := None,
                           suspended := [AwaitInitializeProvider, AwaitInitializeProvider] \<rparr>)"
    by simp
  from 1 2 show ?thesis by (intro conjI)
qed

text \<open>
  The claim as stated fails: the alarm starts a cycle, which is in flight on its fetch;
  the manual refresh that comes next is not dropped, and two fetches are in flight
  (\<open>fetchAllPullRequests\<close> has been called twice).
\<close>

theorem refresh_while_fetching_starts_second_fetch:
  "run [AlarmFired ALARM_NAME] sampleWorker =
     Some (sampleWorker \<lparr> suspended := [AwaitFetchAll sampleProvider], fetchAllCalls := 1 \<rparr>)
   \<and> run [AlarmFired ALARM_NAME, RefreshMessage] sampleWorker =
     Some (sampleWorker \<lparr> suspended := [AwaitFetchAll sampleProvider, AwaitFetchAll sampleProvider],
                          fetchAllCalls := 2 \<rparr>)"
  by (simp add: fetchAndCachePRs_def sampleWorker_def)

end
